theory Spec2Isabelle
  imports Complex_Main
begin

section \<open>Tensors and the library operations the program calls\<close>

text \<open>
  The program works on dense two-dimensional batches (one row per node id, one column per
  feature).  A batch is modelled as PyTorch stores it: a shape and the entries in row-major
  order.  A \<open>view\<close> then changes the shape and leaves the entries alone, exactly as in the
  library.  Entries are real numbers: the arithmetic of the model is exact, rounding is not
  modelled.  Shapes may contain zero (an empty batch, zero-width features).
\<close>

record tensor2 =
  shape0 :: nat
  shape1 :: nat
  data :: "real list"

record tensor3 =
  dim0 :: nat
  dim1 :: nat
  dim2 :: nat
  data3 :: "real list"

definition wf_tensor :: "tensor2 \<Rightarrow> bool" where
  "wf_tensor t = (length (data t) = shape0 t * shape1 t)"

definition at2 :: "tensor2 \<Rightarrow> nat \<Rightarrow> nat \<Rightarrow> real" where
  "at2 t i j = data t ! (i * shape1 t + j)"

definition at3 :: "tensor3 \<Rightarrow> nat \<Rightarrow> nat \<Rightarrow> nat \<Rightarrow> real" where
  "at3 v i s j = data3 v ! ((i * dim1 v + s) * dim2 v + j)"

definition row :: "tensor2 \<Rightarrow> nat \<Rightarrow> real list" where
  "row t i = take (shape1 t) (drop (i * shape1 t) (data t))"

text \<open>The batch with \<open>r\<close> rows and \<open>c\<close> columns whose entry \<open>(i, j)\<close> is \<open>f i j\<close>.\<close>

definition tabulate2 :: "nat \<Rightarrow> nat \<Rightarrow> (nat \<Rightarrow> nat \<Rightarrow> real) \<Rightarrow> tensor2" where
  "tabulate2 r c f =
     \<lparr>shape0 = r, shape1 = c, data = concat (map (\<lambda>i. map (f i) [0..<c]) [0..<r])\<rparr>"

text \<open>\<open>torch.zeros((r, c))\<close>.\<close>

definition zeros :: "nat \<Rightarrow> nat \<Rightarrow> tensor2" where
  "zeros r c = tabulate2 r c (\<lambda>i j. 0)"

text \<open>
  Every exception the forward pass can end with.  The two failures of \<open>view\<close> are kept
  apart, as the library reports them with different messages: a requested shape that does
  not divide the number of entries, and a \<open>-1\<close> that cannot be inferred because the tensor
  is empty.
\<close>

datatype error =
    IndexError
  | SamplingFailure string
  | LinearSizeMismatch
  | ViewShapeInvalid
  | ViewAmbiguous
  | CatEmptyList
  | CatSizeMismatch
  | AssertionError
  | ValueError

text \<open>
  \<open>features[ids]\<close>: the rows of \<open>features\<close> named by \<open>ids\<close>, in order; an id that is
  not a row of \<open>features\<close> raises.  Node ids are natural numbers.
\<close>

definition index_rows :: "tensor2 \<Rightarrow> nat list \<Rightarrow> error + tensor2" where
  "index_rows features ids =
     (if list_all (\<lambda>i. i < shape0 features) ids
      then Inr \<lparr>shape0 = length ids, shape1 = shape1 features,
                data = concat (map (row features) ids)\<rparr>
      else Inl IndexError)"

text \<open>
  \<open>nn.Linear(in_features, out_features, bias)\<close>: the weight has shape
  \<open>out_features \<times> in_features\<close>.  The library draws the initial entries at random; here
  they are parameters of the constructor.
\<close>

record Linear =
  in_features :: nat
  out_features :: nat
  weight :: tensor2
  bias :: "real list option"

definition Linear_init ::
  "nat \<Rightarrow> nat \<Rightarrow> (nat \<Rightarrow> nat \<Rightarrow> real) \<Rightarrow> (nat \<Rightarrow> real) option \<Rightarrow> Linear" where
  "Linear_init n_in n_out w b =
     \<lparr>in_features = n_in, out_features = n_out, weight = tabulate2 n_out n_in w,
      bias = map_option (\<lambda>f. map f [0..<n_out]) b\<rparr>"

definition dot :: "nat \<Rightarrow> (nat \<Rightarrow> real) \<Rightarrow> (nat \<Rightarrow> real) \<Rightarrow> real" where
  "dot n u v = sum_list (map (\<lambda>c. u c * v c) [0..<n])"

definition Linear_forward :: "Linear \<Rightarrow> tensor2 \<Rightarrow> error + tensor2" where
  "Linear_forward l x =
     (if shape1 x \<noteq> in_features l then Inl LinearSizeMismatch
      else Inr (tabulate2 (shape0 x) (out_features l)
             (\<lambda>i k. dot (in_features l) (at2 x i) (at2 (weight l) k)
                    + (case bias l of None \<Rightarrow> 0 | Some b \<Rightarrow> b ! k))))"

text \<open>
  \<open>t.view(a, -1, c)\<close> on a contiguous \<open>t\<close>: the middle dimension is inferred from the
  number of entries.  The library accepts the shape when the entries divide evenly; it
  rejects an empty tensor whose remaining dimensions multiply to zero, since any middle
  dimension would fit.
\<close>

definition view3 :: "tensor2 \<Rightarrow> nat \<Rightarrow> nat \<Rightarrow> error + tensor3" where
  "view3 t a c =
     (let numel = shape0 t * shape1 t; newsize = a * c in
      if numel = newsize \<or> (0 < newsize \<and> numel mod newsize = 0)
      then (if newsize = 0 then Inl ViewAmbiguous
            else Inr \<lparr>dim0 = a, dim1 = numel div newsize, dim2 = c, data3 = data t\<rparr>)
      else Inl ViewShapeInvalid)"

text \<open>
  \<open>v.mean(dim=1)\<close>.  For a middle dimension of size zero the library fills the result with
  NaN; the reals have no such value and \<open>0 / 0 = 0\<close> in HOL, so the statements about
  pooled values below are made for a positive number of samples only.
\<close>

definition mean_dim1 :: "tensor3 \<Rightarrow> tensor2" where
  "mean_dim1 v =
     tabulate2 (dim0 v) (dim2 v)
       (\<lambda>i j. sum_list (map (\<lambda>s. at3 v i s j) [0..<dim1 v]) / real (dim1 v))"

text \<open>\<open>torch.cat(ts, dim=1)\<close>: the batches side by side; they must agree in their rows.\<close>

definition cat_dim1 :: "tensor2 list \<Rightarrow> error + tensor2" where
  "cat_dim1 ts =
     (case ts of
        [] \<Rightarrow> Inl CatEmptyList
      | t # _ \<Rightarrow>
          if list_all (\<lambda>u. shape0 u = shape0 t) ts
          then Inr \<lparr>shape0 = shape0 t, shape1 = sum_list (map shape1 ts),
                    data = concat (map (\<lambda>i. concat (map (\<lambda>u. row u i) ts)) [0..<shape0 t])\<rparr>
          else Inl CatSizeMismatch)"

text \<open>An activation is an elementwise function; \<open>F.relu\<close> is the default.\<close>

definition relu :: "real \<Rightarrow> real" where
  "relu v = max 0 v"

definition map_tensor :: "(real \<Rightarrow> real) \<Rightarrow> tensor2 \<Rightarrow> tensor2" where
  "map_tensor f t = t\<lparr>data := map f (data t)\<rparr>"

text \<open>
  \<open>F.normalize(t, dim=1)\<close>: every row is divided by its Euclidean norm, the norm clamped
  from below at \<open>eps = 1e-12\<close>.
\<close>

definition row_norm :: "tensor2 \<Rightarrow> nat \<Rightarrow> real" where
  "row_norm t i = sqrt (sum_list (map (\<lambda>c. (at2 t i c)\<^sup>2) [0..<shape1 t]))"

definition normalize :: "tensor2 \<Rightarrow> tensor2" where
  "normalize t =
     tabulate2 (shape0 t) (shape1 t) (\<lambda>i j. at2 t i j / max (row_norm t i) (1 / 10 ^ 12))"

section \<open>MeanAggregator\<close>

text \<open>
  Aggregators are objects; \<open>oid\<close> is the identity of the object, which the module
  container consults when it lists its children.
\<close>

record MeanAggregator =
  oid :: nat
  fc_x :: Linear
  fc_neib :: Linear
  output_dim' :: nat
  activation :: "(real \<Rightarrow> real) option"
  combine_fn :: "tensor2 list \<Rightarrow> error + tensor2"

definition MeanAggregator_init ::
  "nat \<Rightarrow> nat \<Rightarrow> nat \<Rightarrow> (real \<Rightarrow> real) option \<Rightarrow> (tensor2 list \<Rightarrow> error + tensor2) \<Rightarrow>
   (nat \<Rightarrow> nat \<Rightarrow> real) \<Rightarrow> (nat \<Rightarrow> nat \<Rightarrow> real) \<Rightarrow> MeanAggregator" where
  "MeanAggregator_init new_oid input_dim output_dim act comb wx wneib =
     \<lparr>oid = new_oid,
      fc_x = Linear_init input_dim output_dim wx None,
      fc_neib = Linear_init input_dim output_dim wneib None,
      output_dim' = output_dim,
      activation = act,
      combine_fn = comb\<rparr>"

text \<open>The property \<open>output_dim\<close>: the width of the combination of two dummy rows.\<close>

definition MeanAggregator_output_dim :: "MeanAggregator \<Rightarrow> error + nat" where
  "MeanAggregator_output_dim agg =
     (let tmp = zeros 1 (output_dim' agg) in
      case combine_fn agg [tmp, tmp] of Inl e \<Rightarrow> Inl e | Inr t \<Rightarrow> Inr (shape1 t))"

definition MeanAggregator_forward :: "MeanAggregator \<Rightarrow> tensor2 \<Rightarrow> tensor2 \<Rightarrow> error + tensor2" where
  "MeanAggregator_forward agg x neibs =
     (case Linear_forward (fc_x agg) x of
        Inl e \<Rightarrow> Inl e
      | Inr x_emb \<Rightarrow>
          (case view3 neibs (shape0 x) (shape1 neibs) of
             Inl e \<Rightarrow> Inl e
           | Inr agg_neib \<Rightarrow>
               (case Linear_forward (fc_neib agg) (mean_dim1 agg_neib) of
                  Inl e \<Rightarrow> Inl e
                | Inr neib_emb \<Rightarrow>
                    (case combine_fn agg [x_emb, neib_emb] of
                       Inl e \<Rightarrow> Inl e
                     | Inr out \<Rightarrow>
                         Inr (case activation agg of
                                None \<Rightarrow> out
                              | Some f \<Rightarrow> map_tensor f out)))))"

section \<open>GSSupervised\<close>

text \<open>
  A layer spec is the dictionary with the keys \<open>sample_fn\<close>, \<open>n_samples\<close>,
  \<open>output_dim\<close> and \<open>activation\<close>.  The sampling function is an external collaborator:
  it may fail with a message of its own and it may consume randomness, so it takes and
  returns a state \<open>'s\<close> of the outside world.  It returns node ids; the program flattens
  whatever shape it returns with \<open>.contiguous().view(-1)\<close>, so the model takes the ids in
  that flat order.
\<close>

record ('adj, 's) layer_spec =
  sample_fn :: "nat list \<Rightarrow> 'adj \<Rightarrow> nat \<Rightarrow> 's \<Rightarrow> (string + nat list) \<times> 's"
  n_samples :: nat
  spec_output_dim :: nat
  spec_activation :: "(real \<Rightarrow> real) option"

text \<open>The values the library draws for the parameters, per aggregator and for \<open>fc\<close>.\<close>

record init_values =
  init_fc_x :: "nat \<Rightarrow> nat \<Rightarrow> nat \<Rightarrow> real"
  init_fc_neib :: "nat \<Rightarrow> nat \<Rightarrow> nat \<Rightarrow> real"
  init_fc_weight :: "nat \<Rightarrow> nat \<Rightarrow> real"
  init_fc_bias :: "nat \<Rightarrow> real"

record ('adj, 's) GSSupervised =
  sampler_fns :: "(nat list \<Rightarrow> 'adj \<Rightarrow> 's \<Rightarrow> (string + nat list) \<times> 's) list"
  agg_layers :: "MeanAggregator list"
  fc :: Linear
  learning_rate :: real
  weight_decay :: real

text \<open>\<open>partial(s['sample_fn'], n_samples=s['n_samples'])\<close>.\<close>

definition partial_sample_fn ::
  "('adj, 's) layer_spec \<Rightarrow> nat list \<Rightarrow> 'adj \<Rightarrow> 's \<Rightarrow> (string + nat list) \<times> 's" where
  "partial_sample_fn spec = (\<lambda>ids adj. sample_fn spec ids adj (n_samples spec))"

text \<open>
  The loop of the constructor over the layer specs.  Each aggregator is a new object (its
  \<open>oid\<close> is the number of aggregators made before it) with the default combine function,
  and the next \<open>input_dim\<close> is read from its property \<open>output_dim\<close>.
\<close>

fun build_agg_layers ::
  "('adj, 's) layer_spec list \<Rightarrow> init_values \<Rightarrow> MeanAggregator list \<Rightarrow> nat \<Rightarrow>
   error + MeanAggregator list \<times> nat" where
  "build_agg_layers [] iv aggs input_dim = Inr (aggs, input_dim)"
| "build_agg_layers (spec # specs) iv aggs input_dim =
     (let agg = MeanAggregator_init (length aggs) input_dim (spec_output_dim spec)
                  (spec_activation spec) cat_dim1
                  (init_fc_x iv (length aggs)) (init_fc_neib iv (length aggs))
      in case MeanAggregator_output_dim agg of
           Inl e \<Rightarrow> Inl e
         | Inr d \<Rightarrow> build_agg_layers specs iv (aggs @ [agg]) d)"

definition GSSupervised_init ::
  "nat \<Rightarrow> nat \<Rightarrow> ('adj, 's) layer_spec list \<Rightarrow> real \<Rightarrow> real \<Rightarrow> init_values \<Rightarrow>
   error + ('adj, 's) GSSupervised" where
  "GSSupervised_init input_dim num_classes layer_specs lr wd iv =
     (case build_agg_layers layer_specs iv [] input_dim of
        Inl e \<Rightarrow> Inl e
      | Inr (aggs, d) \<Rightarrow>
          Inr \<lparr>sampler_fns = map partial_sample_fn layer_specs,
               agg_layers = aggs,
               fc = Linear_init d num_classes (init_fc_weight iv) (Some (init_fc_bias iv)),
               learning_rate = lr,
               weight_decay = wd\<rparr>)"

text \<open>
  \<open>nn.Sequential(*agg_layers).children()\<close>: the registered modules in order, each object
  once (the container keeps a memo of the objects it has already yielded).
\<close>

fun named_children :: "MeanAggregator list \<Rightarrow> nat list \<Rightarrow> MeanAggregator list" where
  "named_children [] memo = []"
| "named_children (a # as) memo =
     (if oid a \<in> set memo then named_children as memo
      else a # named_children as (oid a # memo))"

definition children :: "('adj, 's) GSSupervised \<Rightarrow> MeanAggregator list" where
  "children m = named_children (agg_layers m) []"

text \<open>\<open>_sample\<close>: the features of the query ids, then one level per sampler.\<close>

fun sample_loop ::
  "(nat list \<Rightarrow> 'adj \<Rightarrow> 's \<Rightarrow> (string + nat list) \<times> 's) list \<Rightarrow> nat list \<Rightarrow> tensor2 \<Rightarrow> 'adj \<Rightarrow>
   tensor2 list \<Rightarrow> 's \<Rightarrow> (error + tensor2 list) \<times> 's" where
  "sample_loop [] ids features adj all_feats s = (Inr all_feats, s)"
| "sample_loop (sampler_fn # rest) ids features adj all_feats s =
     (case sampler_fn ids adj s of
        (Inl msg, s') \<Rightarrow> (Inl (SamplingFailure msg), s')
      | (Inr ids', s') \<Rightarrow>
          (case index_rows features ids' of
             Inl e \<Rightarrow> (Inl e, s')
           | Inr t \<Rightarrow> sample_loop rest ids' features adj (all_feats @ [t]) s'))"

definition GSSupervised_sample ::
  "('adj, 's) GSSupervised \<Rightarrow> nat list \<Rightarrow> tensor2 \<Rightarrow> 'adj \<Rightarrow> 's \<Rightarrow> (error + tensor2 list) \<times> 's" where
  "GSSupervised_sample m ids features adj s =
     (case index_rows features ids of
        Inl e \<Rightarrow> (Inl e, s)
      | Inr t \<Rightarrow> sample_loop (sampler_fns m) ids features adj [t] s)"

text \<open>
  A list comprehension whose body may raise: the elements are computed from left to right
  and the first exception ends it.
\<close>

fun try_map :: "('a \<Rightarrow> error + 'b) \<Rightarrow> 'a list \<Rightarrow> error + 'b list" where
  "try_map f [] = Inr []"
| "try_map f (x # xs) =
     (case f x of
        Inl e \<Rightarrow> Inl e
      | Inr y \<Rightarrow> (case try_map f xs of Inl e \<Rightarrow> Inl e | Inr ys \<Rightarrow> Inr (y # ys)))"

text \<open>One round of the reduction: the body of the loop over the aggregators.\<close>

definition apply_layer :: "MeanAggregator \<Rightarrow> tensor2 list \<Rightarrow> error + tensor2 list" where
  "apply_layer agg_layer all_feats =
     try_map (\<lambda>k. MeanAggregator_forward agg_layer (all_feats ! k) (all_feats ! (k + 1)))
       [0..<length all_feats - 1]"

fun reduce_layers :: "MeanAggregator list \<Rightarrow> tensor2 list \<Rightarrow> error + tensor2 list" where
  "reduce_layers [] all_feats = Inr all_feats"
| "reduce_layers (agg_layer # rest) all_feats =
     (case apply_layer agg_layer all_feats of
        Inl e \<Rightarrow> Inl e
      | Inr all_feats' \<Rightarrow> reduce_layers rest all_feats')"

definition GSSupervised_forward ::
  "('adj, 's) GSSupervised \<Rightarrow> nat list \<Rightarrow> tensor2 \<Rightarrow> 'adj \<Rightarrow> 's \<Rightarrow> (error + tensor2) \<times> 's" where
  "GSSupervised_forward m ids features adj s =
     (case GSSupervised_sample m ids features adj s of
        (Inl e, s') \<Rightarrow> (Inl e, s')
      | (Inr all_feats, s') \<Rightarrow>
          (case reduce_layers (children m) all_feats of
             Inl e \<Rightarrow> (Inl e, s')
           | Inr all_feats' \<Rightarrow>
               if length all_feats' \<noteq> 1 then (Inl AssertionError, s')
               else (Linear_forward (fc m) (normalize (all_feats' ! 0)), s')))"

section \<open>The training step\<close>

text \<open>
  What a training step changes besides the sampler's world: the parameters of the model,
  the gradient buffers of the parameters (one number per scalar parameter, in the order
  of \<open>parameters()\<close>), and the internal state of the optimizer.
\<close>

record ('adj, 's, 'o) training =
  net :: "('adj, 's) GSSupervised"
  grad :: "nat \<Rightarrow> real"
  optimizer_state :: 'o

definition Linear_numel :: "Linear \<Rightarrow> nat" where
  "Linear_numel l =
     shape0 (weight l) * shape1 (weight l) + (case bias l of None \<Rightarrow> 0 | Some b \<Rightarrow> length b)"

definition num_parameters :: "('adj, 's) GSSupervised \<Rightarrow> nat" where
  "num_parameters m =
     sum_list (map (\<lambda>a. Linear_numel (fc_x a) + Linear_numel (fc_neib a)) (agg_layers m))
     + Linear_numel (fc m)"

text \<open>\<open>optimizer.zero_grad()\<close>.\<close>

definition zero_grad :: "('adj, 's, 'o) training \<Rightarrow> ('adj, 's, 'o) training" where
  "zero_grad st = st\<lparr>grad := (\<lambda>i. 0)\<rparr>"

text \<open>
  \<open>F.multilabel_soft_margin_loss(preds, labels)\<close>: the sigmoid of every logit, then the
  binary cross-entropy of every entry against its label, averaged over all entries.  The
  library refuses inputs with different numbers of entries.  The small constant it adds
  under the logarithm against rounding is not modelled.
\<close>

definition sigmoid :: "real \<Rightarrow> real" where
  "sigmoid v = 1 / (1 + exp (- v))"

definition multilabel_soft_margin_loss :: "tensor2 \<Rightarrow> tensor2 \<Rightarrow> error + real" where
  "multilabel_soft_margin_loss preds labels =
     (if shape0 preds * shape1 preds = shape0 labels * shape1 labels
      then Inr (- sum_list (map (\<lambda>i. data labels ! i * ln (sigmoid (data preds ! i))
                                     + (1 - data labels ! i) * ln (1 - sigmoid (data preds ! i)))
                        [0..<shape0 preds * shape1 preds])
                / real (shape0 preds * shape1 preds))
      else Inl ValueError)"

text \<open>
  \<open>torch.nn.utils.clip_grad_norm(parameters, max_norm)\<close>: the Euclidean norm of all
  gradients together; when it exceeds \<open>max_norm\<close> (up to the \<open>1e-6\<close> of the library)
  every gradient is scaled by the same coefficient.
\<close>

definition total_norm :: "nat \<Rightarrow> (nat \<Rightarrow> real) \<Rightarrow> real" where
  "total_norm n g = sqrt (sum_list (map (\<lambda>i. (g i)\<^sup>2) [0..<n]))"

definition clip_grad_norm :: "nat \<Rightarrow> real \<Rightarrow> (nat \<Rightarrow> real) \<Rightarrow> nat \<Rightarrow> real" where
  "clip_grad_norm n max_norm g =
     (let clip_coef = max_norm / (total_norm n g + 1 / 10 ^ 6)
      in if clip_coef < 1 then (\<lambda>i. g i * clip_coef) else g)"

text \<open>
  The loss of a batch as a function of the parameters of the model (with the sampler's
  world fixed, so the same neighbours are sampled): this is the quantity that
  \<open>loss.backward()\<close> differentiates.  Where the forward pass or the loss raises, no
  gradient is ever asked for and the value is immaterial.
\<close>

definition batch_loss ::
  "('adj, 's) GSSupervised \<Rightarrow> nat list \<Rightarrow> tensor2 \<Rightarrow> 'adj \<Rightarrow> tensor2 \<Rightarrow> 's \<Rightarrow> real" where
  "batch_loss m ids features adj labels s =
     (case GSSupervised_forward m ids features adj s of
        (Inl e, s') \<Rightarrow> 0
      | (Inr preds, s') \<Rightarrow>
          (case multilabel_soft_margin_loss preds labels of Inl e \<Rightarrow> 0 | Inr loss \<Rightarrow> loss))"

text \<open>
  \<open>train_step\<close>.  Automatic differentiation and the optimizer are external.
  \<open>differentiate f m\<close> stands for the gradient of \<open>f\<close> at the parameters of \<open>m\<close>, one
  number per scalar parameter; \<open>loss.backward()\<close> adds the gradient of the loss of this
  batch to the gradient buffers.  \<open>optimizer_step\<close> stands for \<open>optimizer.step()\<close>,
  which reads the buffers and returns the updated parameters.  An exception leaves the
  function at once, after the statements before it have run.  The returned loss is a
  number, \<open>loss.data[0]\<close>.
\<close>

definition train_step ::
  "((('adj, 's) GSSupervised \<Rightarrow> real) \<Rightarrow> ('adj, 's) GSSupervised \<Rightarrow> nat \<Rightarrow> real) \<Rightarrow>
   ('o \<Rightarrow> ('adj, 's) GSSupervised \<Rightarrow> (nat \<Rightarrow> real) \<Rightarrow> 'o \<times> ('adj, 's) GSSupervised) \<Rightarrow>
   ('adj, 's, 'o) training \<Rightarrow> nat list \<Rightarrow> tensor2 \<Rightarrow> 'adj \<Rightarrow> tensor2 \<Rightarrow> 's \<Rightarrow>
   ((error + tensor2 \<times> real) \<times> 's) \<times> ('adj, 's, 'o) training" where
  "train_step differentiate optimizer_step st ids features adj labels s =
     (let st1 = zero_grad st in
      case GSSupervised_forward (net st1) ids features adj s of
        (Inl e, s') \<Rightarrow> ((Inl e, s'), st1)
      | (Inr preds, s') \<Rightarrow>
          (case multilabel_soft_margin_loss preds labels of
             Inl e \<Rightarrow> ((Inl e, s'), st1)
           | Inr loss \<Rightarrow>
               (let st2 = st1\<lparr>grad := (\<lambda>i. grad st1 i
                             + differentiate (\<lambda>m'. batch_loss m' ids features adj labels s) (net st1) i)\<rparr>;
                    st3 = st2\<lparr>grad := clip_grad_norm (num_parameters (net st2)) 5 (grad st2)\<rparr>;
                    (o', m') = optimizer_step (optimizer_state st3) (net st3) (grad st3)
                in ((Inr (preds, loss), s'), st3\<lparr>net := m', optimizer_state := o'\<rparr>))))"

section \<open>Mean pooling as the specification words it\<close>

text \<open>
  The specification describes the pooled batch without \<open>view\<close>: the neighbour rows are
  taken in \<open>N\<close> groups of \<open>n\<close> consecutive rows, and each group is replaced by the
  elementwise mean of its vectors.  This second definition follows those words; it is
  compared with what the code computes.
\<close>

definition group_rows :: "nat \<Rightarrow> tensor2 \<Rightarrow> nat \<Rightarrow> real list list" where
  "group_rows n t i = map (row t) [i * n..<i * n + n]"

definition mean_vectors :: "nat \<Rightarrow> real list list \<Rightarrow> real list" where
  "mean_vectors d vs = map (\<lambda>j. sum_list (map (\<lambda>v. v ! j) vs) / real (length vs)) [0..<d]"

definition pooled :: "nat \<Rightarrow> nat \<Rightarrow> tensor2 \<Rightarrow> tensor2" where
  "pooled N n neibs =
     \<lparr>shape0 = N, shape1 = shape1 neibs,
      data = concat (map (\<lambda>i. mean_vectors (shape1 neibs) (group_rows n neibs i)) [0..<N])\<rparr>"

section \<open>A small graph to run the model on\<close>

text \<open>
  A sampler that meets the contract of the specification: for every id it walks round the
  adjacency list of the id until it has \<open>n\<close> neighbours (so it samples with replacement
  when the degree is smaller), and it fails on an id without neighbours.  It is
  deterministic and leaves the outside world alone.
\<close>

definition round_robin_sampler ::
  "nat list \<Rightarrow> (nat \<Rightarrow> nat list) \<Rightarrow> nat \<Rightarrow> 's \<Rightarrow> (string + nat list) \<times> 's" where
  "round_robin_sampler ids adj n s =
     (if list_all (\<lambda>i. adj i \<noteq> []) ids
      then (Inr (concat (map (\<lambda>i. map (\<lambda>j. adj i ! (j mod length (adj i))) [0..<n]) ids)), s)
      else (Inl ''no neighbours'', s))"

definition example_spec :: "nat \<Rightarrow> nat \<Rightarrow> (nat \<Rightarrow> nat list, unit) layer_spec" where
  "example_spec n d =
     \<lparr>sample_fn = round_robin_sampler, n_samples = n, spec_output_dim = d,
      spec_activation = Some relu\<rparr>"

definition example_init :: init_values where
  "example_init =
     \<lparr>init_fc_x = (\<lambda>l k c. 1), init_fc_neib = (\<lambda>l k c. 2),
      init_fc_weight = (\<lambda>k c. 1), init_fc_bias = (\<lambda>k. 0)\<rparr>"

text \<open>Three nodes in a triangle, with two features each.\<close>

definition triangle_adj :: "nat \<Rightarrow> nat list" where
  "triangle_adj i = (if i < 3 then [(i + 1) mod 3, (i + 2) mod 3] else [])"

definition triangle_features :: tensor2 where
  "triangle_features = \<lparr>shape0 = 3, shape1 = 2, data = [1, 0, 0, 1, 1, 1]\<rparr>"

text \<open>
  The model with two layers built from \<open>[example_spec 2 1, example_spec 1 2]\<close> for
  two input features and one class, as the constructor returns it, and the levels that
  sampling from node 0 of the triangle gives.
\<close>

definition example_model :: "(nat \<Rightarrow> nat list, unit) GSSupervised" where
  "example_model =
     \<lparr>sampler_fns = [partial_sample_fn (example_spec 2 1), partial_sample_fn (example_spec 1 2)],
      agg_layers =
        [MeanAggregator_init 0 2 1 (Some relu) cat_dim1 (\<lambda>k c. 1) (\<lambda>k c. 2),
         MeanAggregator_init 1 2 2 (Some relu) cat_dim1 (\<lambda>k c. 1) (\<lambda>k c. 2)],
      fc = Linear_init 4 1 (\<lambda>k c. 1) (Some (\<lambda>k. 0)),
      learning_rate = 0,
      weight_decay = 0\<rparr>"

definition example_levels :: "tensor2 list" where
  "example_levels =
     [\<lparr>shape0 = 1, shape1 = 2, data = [1, 0]\<rparr>,
      \<lparr>shape0 = 2, shape1 = 2, data = [0, 1, 1, 1]\<rparr>,
      \<lparr>shape0 = 2, shape1 = 2, data = [1, 1, 1, 0]\<rparr>]"

section \<open>Facts about tensors\<close>

lemma length_concat_uniform:
  "(\<And>r. r \<in> set rows \<Longrightarrow> length r = c) \<Longrightarrow> length (concat rows) = length rows * c"
  by (induction rows) simp_all

lemma nth_concat_uniform:
  "(\<And>r. r \<in> set rows \<Longrightarrow> length r = c) \<Longrightarrow> i < length rows \<Longrightarrow> j < c \<Longrightarrow>
   concat rows ! (i * c + j) = rows ! i ! j"
proof (induction rows arbitrary: i)
  case Nil
  then show ?case by simp
next
  case (Cons r rows)
  show ?case
  proof (cases i)
    case 0
    with Cons.prems show ?thesis by (simp add: nth_append)
  next
    case (Suc i')
    have "concat (r # rows) ! (i * c + j) = concat rows ! (i' * c + j)"
      using Cons.prems Suc by (simp add: nth_append)
    also have "\<dots> = rows ! i' ! j"
      using Cons.prems Suc by (intro Cons.IH) auto
    finally show ?thesis using Suc by simp
  qed
qed

lemma shape_tabulate2 [simp]:
  "shape0 (tabulate2 r c f) = r" "shape1 (tabulate2 r c f) = c"
  by (simp_all add: tabulate2_def)

lemma length_data_tabulate2: "length (data (tabulate2 r c f)) = r * c"
proof -
  have "length (concat (map (\<lambda>i. map (f i) [0..<c]) [0..<r])) =
        length (map (\<lambda>i. map (f i) [0..<c]) [0..<r]) * c"
    by (rule length_concat_uniform) auto
  then show ?thesis by (simp add: tabulate2_def)
qed

lemma wf_tabulate2 [simp]: "wf_tensor (tabulate2 r c f)"
  by (simp add: wf_tensor_def length_data_tabulate2)

lemma at2_tabulate2 [simp]:
  assumes "i < r" "j < c"
  shows "at2 (tabulate2 r c f) i j = f i j"
proof -
  have "concat (map (\<lambda>i. map (f i) [0..<c]) [0..<r]) ! (i * c + j) =
        map (\<lambda>i. map (f i) [0..<c]) [0..<r] ! i ! j"
    using assms by (intro nth_concat_uniform) auto
  then show ?thesis using assms by (simp add: at2_def tabulate2_def)
qed

lemma tensor2_eqI:
  assumes "wf_tensor a" "wf_tensor b" "shape0 a = shape0 b" "shape1 a = shape1 b"
    and "\<And>i j. i < shape0 a \<Longrightarrow> j < shape1 a \<Longrightarrow> at2 a i j = at2 b i j"
  shows "a = b"
proof -
  have "data a = data b"
  proof (rule nth_equalityI)
    show "length (data a) = length (data b)"
      using assms(1-4) by (simp add: wf_tensor_def)
  next
    fix n assume n: "n < length (data a)"
    then have c: "0 < shape1 a"
      using assms(1) by (cases "shape1 a") (simp_all add: wf_tensor_def)
    have "n div shape1 a < shape0 a"
      using n assms(1) c by (simp add: wf_tensor_def less_mult_imp_div_less)
    moreover have "n mod shape1 a < shape1 a" using c by simp
    ultimately have
      "at2 a (n div shape1 a) (n mod shape1 a) = at2 b (n div shape1 a) (n mod shape1 a)"
      by (rule assms(5))
    then show "data a ! n = data b ! n"
      using assms(4) by (simp add: at2_def)
  qed
  then show ?thesis using assms(3,4) by simp
qed

lemma tabulate2_cong:
  "(\<And>i j. i < r \<Longrightarrow> j < c \<Longrightarrow> f i j = g i j) \<Longrightarrow> tabulate2 r c f = tabulate2 r c g"
  by (rule tensor2_eqI) simp_all

lemma tabulate2_at2:
  "wf_tensor t \<Longrightarrow> tabulate2 (shape0 t) (shape1 t) (at2 t) = t"
  by (rule tensor2_eqI) simp_all

lemma row_eq_map_at2:
  assumes "wf_tensor t" "i < shape0 t"
  shows "row t i = map (at2 t i) [0..<shape1 t]"
proof (rule nth_equalityI)
  have bound: "i * shape1 t + shape1 t \<le> length (data t)"
  proof -
    have "Suc i * shape1 t \<le> shape0 t * shape1 t"
      using assms(2) by (intro mult_le_mono1) simp
    then show ?thesis using assms(1) by (simp add: wf_tensor_def add.commute)
  qed
  from bound show len: "length (row t i) = length (map (at2 t i) [0..<shape1 t])"
    by (simp add: row_def)
  fix j assume "j < length (row t i)"
  then have "j < shape1 t" using len by simp
  then show "row t i ! j = map (at2 t i) [0..<shape1 t] ! j"
    using bound by (simp add: row_def at2_def)
qed

lemma dot_cong:
  "(\<And>c. c < n \<Longrightarrow> u c = u' c) \<Longrightarrow> (\<And>c. c < n \<Longrightarrow> v c = v' c) \<Longrightarrow> dot n u v = dot n u' v'"
  unfolding dot_def by (intro arg_cong [where f = sum_list] map_cong) auto

lemma Linear_init_simps [simp]:
  "in_features (Linear_init n_in n_out w b) = n_in"
  "out_features (Linear_init n_in n_out w b) = n_out"
  "weight (Linear_init n_in n_out w b) = tabulate2 n_out n_in w"
  "bias (Linear_init n_in n_out w None) = None"
  "bias (Linear_init n_in n_out w (Some f)) = Some (map f [0..<n_out])"
  by (simp_all add: Linear_init_def)

lemma Linear_forward_no_bias:
  assumes "shape1 x = n_in"
  shows "Linear_forward (Linear_init n_in n_out w None) x =
         Inr (tabulate2 (shape0 x) n_out (\<lambda>i k. dot n_in (at2 x i) (w k)))"
proof -
  have "tabulate2 (shape0 x) n_out
          (\<lambda>i k. dot n_in (at2 x i) (at2 (tabulate2 n_out n_in w) k) + 0) =
        tabulate2 (shape0 x) n_out (\<lambda>i k. dot n_in (at2 x i) (w k))"
  proof (rule tabulate2_cong)
    fix i k assume "i < shape0 x" "k < n_out"
    then have "dot n_in (at2 x i) (at2 (tabulate2 n_out n_in w) k) = dot n_in (at2 x i) (w k)"
      by (intro dot_cong) simp_all
    then show "dot n_in (at2 x i) (at2 (tabulate2 n_out n_in w) k) + 0 = dot n_in (at2 x i) (w k)"
      by simp
  qed
  then show ?thesis using assms by (simp add: Linear_forward_def)
qed

lemma view3_groups:
  assumes "0 < N" "0 < shape1 t" "shape0 t = N * n"
  shows "view3 t N (shape1 t) = Inr \<lparr>dim0 = N, dim1 = n, dim2 = shape1 t, data3 = data t\<rparr>"
proof -
  have e: "shape0 t * shape1 t = n * (N * shape1 t)" using assms(3) by simp
  have p: "0 < N * shape1 t" using assms(1,2) by simp
  show ?thesis unfolding view3_def Let_def e using p by simp
qed

lemma pooled_eq_tabulate2:
  "pooled N n t =
   tabulate2 N (shape1 t)
     (\<lambda>i j. sum_list (map (\<lambda>v. v ! j) (group_rows n t i)) / real (length (group_rows n t i)))"
  by (simp add: pooled_def tabulate2_def mean_vectors_def)

lemma group_rows_nth:
  assumes "wf_tensor t" "shape0 t = N * n" "i < N" "j < shape1 t"
  shows "map (\<lambda>v. v ! j) (group_rows n t i) = map (\<lambda>s. at2 t (i * n + s) j) [0..<n]"
proof -
  have upt: "[i * n..<i * n + n] = map (\<lambda>s. s + i * n) [0..<n]"
    using map_add_upt [of "i * n" n] by (simp only: add.commute)
  have in_range: "i * n + s < shape0 t" if "s < n" for s
  proof -
    have "i * n + s < Suc i * n" using that by simp
    also have "\<dots> \<le> N * n" using assms(3) by (intro mult_le_mono1) simp
    finally show ?thesis using assms(2) by simp
  qed
  have "map (\<lambda>v. v ! j) (group_rows n t i) = map (\<lambda>s. row t (s + i * n) ! j) [0..<n]"
    unfolding group_rows_def upt by (simp add: comp_def)
  also have "\<dots> = map (\<lambda>s. at2 t (i * n + s) j) [0..<n]"
  proof (rule map_cong [OF refl])
    fix s assume "s \<in> set [0..<n]"
    then have "i * n + s < shape0 t" using in_range by simp
    then have "row t (i * n + s) ! j = at2 t (i * n + s) j"
      using assms(1,4) by (simp add: row_eq_map_at2)
    then show "row t (s + i * n) ! j = at2 t (i * n + s) j" by (simp only: add.commute)
  qed
  finally show ?thesis .
qed

lemma mean_dim1_eq_pooled:
  assumes "wf_tensor t" "shape0 t = N * n"
  shows "mean_dim1 \<lparr>dim0 = N, dim1 = n, dim2 = shape1 t, data3 = data t\<rparr> = pooled N n t"
proof -
  have "tabulate2 N (shape1 t)
          (\<lambda>i j. sum_list (map (\<lambda>s. at3 \<lparr>dim0 = N, dim1 = n, dim2 = shape1 t, data3 = data t\<rparr> i s j)
                    [0..<n]) / real n) =
        tabulate2 N (shape1 t)
          (\<lambda>i j. sum_list (map (\<lambda>v. v ! j) (group_rows n t i)) / real (length (group_rows n t i)))"
  proof (rule tabulate2_cong)
    fix i j assume ij: "i < N" "j < shape1 t"
    have "map (\<lambda>v. v ! j) (group_rows n t i) = map (\<lambda>s. at2 t (i * n + s) j) [0..<n]"
      using assms ij by (rule group_rows_nth)
    moreover have "length (group_rows n t i) = n" by (simp add: group_rows_def)
    ultimately show "sum_list (map (\<lambda>s. at3 \<lparr>dim0 = N, dim1 = n, dim2 = shape1 t, data3 = data t\<rparr> i s j)
                    [0..<n]) / real n =
        sum_list (map (\<lambda>v. v ! j) (group_rows n t i)) / real (length (group_rows n t i))"
      by (simp add: at3_def at2_def)
  qed
  then show ?thesis by (simp add: mean_dim1_def pooled_eq_tabulate2)
qed


lemma append_tabulated_rows:
  "map f [0..<c1] @ map g [0..<c2] =
   map (\<lambda>j. if j < c1 then f j else g (j - c1)) [0..<c1 + c2]"
  by (rule nth_equalityI) (auto simp: nth_append)

lemma cat_dim1_pair:
  assumes "wf_tensor a" "wf_tensor b" "shape0 b = shape0 a"
  shows "cat_dim1 [a, b] =
         Inr (tabulate2 (shape0 a) (shape1 a + shape1 b)
                (\<lambda>i j. if j < shape1 a then at2 a i j else at2 b i (j - shape1 a)))"
proof -
  have "map (\<lambda>i. concat (map (\<lambda>u. row u i) [a, b])) [0..<shape0 a] =
        map (\<lambda>i. map (\<lambda>j. if j < shape1 a then at2 a i j else at2 b i (j - shape1 a))
                     [0..<shape1 a + shape1 b]) [0..<shape0 a]"
  proof (rule map_cong [OF refl])
    fix i assume "i \<in> set [0..<shape0 a]"
    then have i: "i < shape0 a" "i < shape0 b" using assms(3) by simp_all
    show "concat (map (\<lambda>u. row u i) [a, b]) =
          map (\<lambda>j. if j < shape1 a then at2 a i j else at2 b i (j - shape1 a))
            [0..<shape1 a + shape1 b]"
      using assms(1,2) i by (simp add: row_eq_map_at2 append_tabulated_rows)
  qed
  then have "concat (map (\<lambda>i. concat (map (\<lambda>u. row u i) [a, b])) [0..<shape0 a]) =
        concat (map (\<lambda>i. map (\<lambda>j. if j < shape1 a then at2 a i j else at2 b i (j - shape1 a))
                     [0..<shape1 a + shape1 b]) [0..<shape0 a])"
    by (rule arg_cong)
  then show ?thesis using assms(3) by (simp add: cat_dim1_def tabulate2_def)
qed

lemma mean_dim1_single:
  assumes "wf_tensor t"
  shows "mean_dim1 \<lparr>dim0 = shape0 t, dim1 = 1, dim2 = shape1 t, data3 = data t\<rparr> = t"
proof (rule tensor2_eqI)
  fix i j assume "i < shape0 (mean_dim1 \<lparr>dim0 = shape0 t, dim1 = 1, dim2 = shape1 t, data3 = data t\<rparr>)"
    "j < shape1 (mean_dim1 \<lparr>dim0 = shape0 t, dim1 = 1, dim2 = shape1 t, data3 = data t\<rparr>)"
  then show "at2 (mean_dim1 \<lparr>dim0 = shape0 t, dim1 = 1, dim2 = shape1 t, data3 = data t\<rparr>) i j = at2 t i j"
    by (simp add: mean_dim1_def) (simp add: at3_def at2_def)
qed (simp_all add: mean_dim1_def assms)

lemma MeanAggregator_init_simps [simp]:
  "oid (MeanAggregator_init k d_in d_out act comb wx wn) = k"
  "fc_x (MeanAggregator_init k d_in d_out act comb wx wn) = Linear_init d_in d_out wx None"
  "fc_neib (MeanAggregator_init k d_in d_out act comb wx wn) = Linear_init d_in d_out wn None"
  "output_dim' (MeanAggregator_init k d_in d_out act comb wx wn) = d_out"
  "activation (MeanAggregator_init k d_in d_out act comb wx wn) = act"
  "combine_fn (MeanAggregator_init k d_in d_out act comb wx wn) = comb"
  by (simp_all add: MeanAggregator_init_def)

lemma MeanAggregator_forward_pooled:
  assumes "wf_tensor neibs" "shape0 neibs = shape0 x * n" "0 < shape0 x" "0 < shape1 neibs"
  shows "MeanAggregator_forward agg x neibs =
     (case Linear_forward (fc_x agg) x of
        Inl e \<Rightarrow> Inl e
      | Inr x_emb \<Rightarrow>
          (case Linear_forward (fc_neib agg) (pooled (shape0 x) n neibs) of
             Inl e \<Rightarrow> Inl e
           | Inr neib_emb \<Rightarrow>
               (case combine_fn agg [x_emb, neib_emb] of
                  Inl e \<Rightarrow> Inl e
                | Inr out \<Rightarrow>
                    Inr (case activation agg of None \<Rightarrow> out | Some f \<Rightarrow> map_tensor f out))))"
proof -
  have "view3 neibs (shape0 x) (shape1 neibs) =
        Inr \<lparr>dim0 = shape0 x, dim1 = n, dim2 = shape1 neibs, data3 = data neibs\<rparr>"
    using assms(3,4,2) by (rule view3_groups)
  moreover have "mean_dim1 \<lparr>dim0 = shape0 x, dim1 = n, dim2 = shape1 neibs, data3 = data neibs\<rparr> =
        pooled (shape0 x) n neibs"
    using assms(1,2) by (rule mean_dim1_eq_pooled)
  ultimately show ?thesis
    by (cases "Linear_forward (fc_x agg) x") (simp_all add: MeanAggregator_forward_def)
qed



lemma view3_result:
  "view3 t a c = Inr v \<Longrightarrow>
   dim0 v = a \<and> dim2 v = c \<and> data3 v = data t \<and> a * dim1 v * c = shape0 t * shape1 t"
  by (auto simp: view3_def Let_def split: if_splits)

lemma view3_not_multiple:
  assumes "\<not> a dvd shape0 t"
  shows "view3 t a (shape1 t) = Inl ViewShapeInvalid \<or> view3 t a (shape1 t) = Inl ViewAmbiguous"
proof (cases "view3 t a (shape1 t)")
  case (Inl e)
  then show ?thesis by (auto simp: view3_def Let_def split: if_splits)
next
  case (Inr v)
  then have pos: "0 < a * shape1 t" and "a * dim1 v * shape1 t = shape0 t * shape1 t"
    by (auto simp: view3_def Let_def split: if_splits dest: view3_result)
  then have "a * dim1 v = shape0 t" by simp
  then have "a dvd shape0 t" by (metis dvd_triv_left)
  with assms show ?thesis by simp
qed

lemma view3_multiple:
  assumes "a dvd shape0 t" "0 < a" "0 < shape1 t"
  shows "view3 t a (shape1 t) =
         Inr \<lparr>dim0 = a, dim1 = shape0 t div a, dim2 = shape1 t, data3 = data t\<rparr>"
proof -
  have "shape0 t = a * (shape0 t div a)" using assms(1) by simp
  then have "shape0 t = a * (shape0 t div a)" .
  then show ?thesis using view3_groups [of a t "shape0 t div a"] assms(2,3) by simp
qed

lemma view3_never_invalid_on_multiple:
  assumes "a dvd shape0 t"
  shows "view3 t a (shape1 t) \<noteq> Inl ViewShapeInvalid"
proof (cases "0 < a \<and> 0 < shape1 t")
  case True
  then show ?thesis using view3_multiple [OF assms] by simp
next
  case False
  then have z: "a * shape1 t = 0" "shape0 t * shape1 t = 0" using assms by auto
  show ?thesis unfolding view3_def Let_def z by simp
qed

lemma view3_empty:
  assumes "a dvd shape0 t" "a = 0 \<or> shape1 t = 0"
  shows "view3 t a (shape1 t) = Inl ViewAmbiguous"
proof -
  have z: "a * shape1 t = 0" "shape0 t * shape1 t = 0" using assms by auto
  show ?thesis unfolding view3_def Let_def z by simp
qed

lemma Linear_forward_cases:
  "Linear_forward l x = Inl e \<Longrightarrow> e = LinearSizeMismatch"
  "Linear_forward l x = Inr y \<Longrightarrow> shape0 y = shape0 x \<and> shape1 y = out_features l \<and> wf_tensor y"
  by (auto simp: Linear_forward_def split: if_splits)

lemma Linear_forward_ok:
  "shape1 x = in_features l \<Longrightarrow> \<exists>y. Linear_forward l x = Inr y"
  by (simp add: Linear_forward_def)

lemma cat_dim1_pair_cases:
  "cat_dim1 [a, b] = Inl e \<Longrightarrow> e = CatSizeMismatch \<and> shape0 a \<noteq> shape0 b"
  "cat_dim1 [a, b] = Inr y \<Longrightarrow> shape0 y = shape0 a \<and> shape1 y = shape1 a + shape1 b"
  "shape0 b = shape0 a \<Longrightarrow> \<exists>y. cat_dim1 [a, b] = Inr y"
  by (auto simp: cat_dim1_def split: if_splits)

lemma shape_map_tensor [simp]:
  "shape0 (map_tensor f t) = shape0 t" "shape1 (map_tensor f t) = shape1 t"
  by (simp_all add: map_tensor_def)

lemma shape_mean_dim1 [simp]:
  "shape0 (mean_dim1 v) = dim0 v" "shape1 (mean_dim1 v) = dim2 v"
  by (simp_all add: mean_dim1_def)

lemma MeanAggregator_forward_Inr:
  assumes "MeanAggregator_forward agg x neibs = Inr out" "combine_fn agg = cat_dim1"
  shows "shape0 out = shape0 x \<and> shape1 out = out_features (fc_x agg) + out_features (fc_neib agg)"
proof -
  from assms obtain x_emb v neib_emb c where
    1: "Linear_forward (fc_x agg) x = Inr x_emb" and
    2: "view3 neibs (shape0 x) (shape1 neibs) = Inr v" and
    3: "Linear_forward (fc_neib agg) (mean_dim1 v) = Inr neib_emb" and
    4: "cat_dim1 [x_emb, neib_emb] = Inr c" and
    5: "out = (case activation agg of None \<Rightarrow> c | Some f \<Rightarrow> map_tensor f c)"
    by (auto simp: MeanAggregator_forward_def split: sum.splits)
  have "shape0 c = shape0 x \<and> shape1 c = out_features (fc_x agg) + out_features (fc_neib agg)"
    using Linear_forward_cases(2) [OF 1] Linear_forward_cases(2) [OF 3] cat_dim1_pair_cases(2) [OF 4]
    by simp
  then show ?thesis using 5 by (cases "activation agg") simp_all
qed

lemma MeanAggregator_forward_Inl:
  assumes "MeanAggregator_forward agg x neibs = Inl e" "combine_fn agg = cat_dim1"
  shows "e = LinearSizeMismatch \<or> view3 neibs (shape0 x) (shape1 neibs) = Inl e"
proof (cases "Linear_forward (fc_x agg) x")
  case (Inl e1)
  then show ?thesis using assms Linear_forward_cases(1) [OF Inl]
    by (simp add: MeanAggregator_forward_def)
next
  case x_emb: (Inr x_emb)
  show ?thesis
  proof (cases "view3 neibs (shape0 x) (shape1 neibs)")
    case (Inl e2)
    then show ?thesis using assms x_emb by (simp add: MeanAggregator_forward_def)
  next
    case v: (Inr v)
    show ?thesis
    proof (cases "Linear_forward (fc_neib agg) (mean_dim1 v)")
      case (Inl e3)
      then show ?thesis using assms x_emb v Linear_forward_cases(1) [OF Inl]
        by (simp add: MeanAggregator_forward_def)
    next
      case neib_emb: (Inr neib_emb)
      have "shape0 neib_emb = shape0 x_emb"
        using Linear_forward_cases(2) [OF x_emb] Linear_forward_cases(2) [OF neib_emb]
          view3_result [OF v] by simp
      then obtain c where "cat_dim1 [x_emb, neib_emb] = Inr c"
        using cat_dim1_pair_cases(3) by blast
      then show ?thesis using assms x_emb v neib_emb
        by (simp add: MeanAggregator_forward_def)
    qed
  qed
qed

lemma MeanAggregator_forward_succeeds:
  assumes "view3 neibs (shape0 x) (shape1 neibs) = Inr v"
    and "shape1 x = in_features (fc_x agg)" "shape1 neibs = in_features (fc_neib agg)"
    and "combine_fn agg = cat_dim1"
  shows "\<exists>out. MeanAggregator_forward agg x neibs = Inr out"
proof -
  obtain x_emb where x_emb: "Linear_forward (fc_x agg) x = Inr x_emb"
    using Linear_forward_ok [OF assms(2)] by blast
  have "shape1 (mean_dim1 v) = in_features (fc_neib agg)"
    using view3_result [OF assms(1)] assms(3) by simp
  then obtain neib_emb where neib_emb: "Linear_forward (fc_neib agg) (mean_dim1 v) = Inr neib_emb"
    using Linear_forward_ok by blast
  have "shape0 neib_emb = shape0 x_emb"
    using Linear_forward_cases(2) [OF x_emb] Linear_forward_cases(2) [OF neib_emb]
      view3_result [OF assms(1)] by simp
  then obtain c where "cat_dim1 [x_emb, neib_emb] = Inr c"
    using cat_dim1_pair_cases(3) by blast
  then show ?thesis using assms x_emb neib_emb by (simp add: MeanAggregator_forward_def)
qed

section \<open>Facts about the constructor of the model\<close>

lemma MeanAggregator_output_dim_cat:
  "MeanAggregator_output_dim (MeanAggregator_init k d_in d_out act cat_dim1 wx wn) = Inr (2 * d_out)"
proof -
  obtain t where t: "cat_dim1 [zeros 1 d_out, zeros 1 d_out] = Inr t"
    using cat_dim1_pair_cases(3) [of "zeros 1 d_out" "zeros 1 d_out"] by blast
  have "shape1 t = 2 * d_out"
    using cat_dim1_pair_cases(2) [OF t] by (simp add: zeros_def)
  then show ?thesis using t by (simp add: MeanAggregator_output_dim_def)
qed

lemma build_agg_layers_result:
  "\<exists>made. build_agg_layers specs iv aggs d =
            Inr (aggs @ made, if specs = [] then d else 2 * spec_output_dim (last specs)) \<and>
          length made = length specs \<and>
          (\<forall>k<length specs.
             made ! k =
               MeanAggregator_init (length aggs + k)
                 (if k = 0 then d else 2 * spec_output_dim (specs ! (k - 1)))
                 (spec_output_dim (specs ! k)) (spec_activation (specs ! k)) cat_dim1
                 (init_fc_x iv (length aggs + k)) (init_fc_neib iv (length aggs + k)))"
proof (induction specs arbitrary: aggs d)
  case Nil
  show ?case by simp
next
  case (Cons spec specs)
  define agg where "agg = MeanAggregator_init (length aggs) d (spec_output_dim spec)
                  (spec_activation spec) cat_dim1
                  (init_fc_x iv (length aggs)) (init_fc_neib iv (length aggs))"
  have step: "build_agg_layers (spec # specs) iv aggs d =
              build_agg_layers specs iv (aggs @ [agg]) (2 * spec_output_dim spec)"
    by (simp add: agg_def MeanAggregator_output_dim_cat)
  from Cons.IH [of "aggs @ [agg]" "2 * spec_output_dim spec"]
  obtain made where made:
    "build_agg_layers specs iv (aggs @ [agg]) (2 * spec_output_dim spec) =
       Inr ((aggs @ [agg]) @ made,
            if specs = [] then 2 * spec_output_dim spec else 2 * spec_output_dim (last specs))"
    "length made = length specs"
    "\<forall>k<length specs.
        made ! k =
          MeanAggregator_init (length (aggs @ [agg]) + k)
            (if k = 0 then 2 * spec_output_dim spec else 2 * spec_output_dim (specs ! (k - 1)))
            (spec_output_dim (specs ! k)) (spec_activation (specs ! k)) cat_dim1
            (init_fc_x iv (length (aggs @ [agg]) + k)) (init_fc_neib iv (length (aggs @ [agg]) + k))"
    by blast
  have "build_agg_layers (spec # specs) iv aggs d =
          Inr (aggs @ (agg # made),
               if spec # specs = [] then d else 2 * spec_output_dim (last (spec # specs)))"
    using step made(1) by simp
  moreover have "length (agg # made) = length (spec # specs)" using made(2) by simp
  moreover have "\<forall>k<length (spec # specs).
             (agg # made) ! k =
               MeanAggregator_init (length aggs + k)
                 (if k = 0 then d else 2 * spec_output_dim ((spec # specs) ! (k - 1)))
                 (spec_output_dim ((spec # specs) ! k)) (spec_activation ((spec # specs) ! k)) cat_dim1
                 (init_fc_x iv (length aggs + k)) (init_fc_neib iv (length aggs + k))"
  proof (intro allI impI)
    fix k assume k: "k < length (spec # specs)"
    show "(agg # made) ! k =
               MeanAggregator_init (length aggs + k)
                 (if k = 0 then d else 2 * spec_output_dim ((spec # specs) ! (k - 1)))
                 (spec_output_dim ((spec # specs) ! k)) (spec_activation ((spec # specs) ! k)) cat_dim1
                 (init_fc_x iv (length aggs + k)) (init_fc_neib iv (length aggs + k))"
    proof (cases k)
      case 0
      then show ?thesis by (simp add: agg_def)
    next
      case (Suc k')
      then have "k' < length specs" using k by simp
      then show ?thesis using made(3) Suc by (cases k') simp_all
    qed
  qed
  ultimately show ?case by blast
qed


lemma GSSupervised_init_result:
  "\<exists>m. GSSupervised_init input_dim num_classes specs lr wd iv = Inr m \<and>
        sampler_fns m = map partial_sample_fn specs \<and>
        length (agg_layers m) = length specs \<and>
        (\<forall>k<length specs.
           agg_layers m ! k =
             MeanAggregator_init k
               (if k = 0 then input_dim else 2 * spec_output_dim (specs ! (k - 1)))
               (spec_output_dim (specs ! k)) (spec_activation (specs ! k)) cat_dim1
               (init_fc_x iv k) (init_fc_neib iv k)) \<and>
        fc m = Linear_init (if specs = [] then input_dim else 2 * spec_output_dim (last specs))
                 num_classes (init_fc_weight iv) (Some (init_fc_bias iv))"
proof -
  from build_agg_layers_result [of specs iv "[]" input_dim]
  obtain made where made:
    "build_agg_layers specs iv [] input_dim =
       Inr (made, if specs = [] then input_dim else 2 * spec_output_dim (last specs))"
    "length made = length specs"
    "\<forall>k<length specs.
        made ! k =
          MeanAggregator_init k
            (if k = 0 then input_dim else 2 * spec_output_dim (specs ! (k - 1)))
            (spec_output_dim (specs ! k)) (spec_activation (specs ! k)) cat_dim1
            (init_fc_x iv k) (init_fc_neib iv k)"
    by auto
  show ?thesis using made(2,3) by (simp add: GSSupervised_init_def made(1))
qed

lemma GSSupervised_init_fields:
  assumes "GSSupervised_init input_dim num_classes specs lr wd iv = Inr m"
  shows "sampler_fns m = map partial_sample_fn specs"
    and "length (agg_layers m) = length specs"
    and "\<And>k. k < length specs \<Longrightarrow>
           agg_layers m ! k =
             MeanAggregator_init k
               (if k = 0 then input_dim else 2 * spec_output_dim (specs ! (k - 1)))
               (spec_output_dim (specs ! k)) (spec_activation (specs ! k)) cat_dim1
               (init_fc_x iv k) (init_fc_neib iv k)"
    and "fc m = Linear_init (if specs = [] then input_dim else 2 * spec_output_dim (last specs))
                 num_classes (init_fc_weight iv) (Some (init_fc_bias iv))"
  using GSSupervised_init_result [of input_dim num_classes specs lr wd iv] assms by auto

lemma named_children_distinct:
  "distinct (map oid as) \<Longrightarrow> set (map oid as) \<inter> set memo = {} \<Longrightarrow> named_children as memo = as"
proof (induction as arbitrary: memo)
  case Nil
  show ?case by simp
next
  case (Cons a as)
  have "named_children as (oid a # memo) = as"
    using Cons.prems by (intro Cons.IH) auto
  then show ?case using Cons.prems by auto
qed

lemma children_init:
  assumes "GSSupervised_init input_dim num_classes specs lr wd iv = Inr m"
  shows "children m = agg_layers m"
proof -
  have "map oid (agg_layers m) = [0..<length specs]"
    using GSSupervised_init_fields(2,3) [OF assms] by (intro nth_equalityI) simp_all
  then have "distinct (map oid (agg_layers m))" by simp
  then show ?thesis by (simp add: children_def named_children_distinct)
qed

lemma agg_layers_combine_fn:
  assumes "GSSupervised_init input_dim num_classes specs lr wd iv = Inr m"
    and "a \<in> set (agg_layers m)"
  shows "combine_fn a = cat_dim1"
proof -
  from assms(2) obtain k where "k < length (agg_layers m)" "a = agg_layers m ! k"
    by (auto simp: in_set_conv_nth)
  then show ?thesis using GSSupervised_init_fields(2,3) [OF assms(1)] by simp
qed

lemma GSSupervised_init_no_layers:
  "GSSupervised_init input_dim num_classes [] lr wd iv =
     Inr \<lparr>sampler_fns = [], agg_layers = [],
          fc = Linear_init input_dim num_classes (init_fc_weight iv) (Some (init_fc_bias iv)),
          learning_rate = lr, weight_decay = wd\<rparr>"
  by (simp add: GSSupervised_init_def)

section \<open>Facts about sampling and reduction\<close>

lemma index_rows_cases:
  "index_rows features ids = Inr t \<Longrightarrow> shape0 t = length ids \<and> shape1 t = shape1 features"
  "index_rows features ids = Inl e \<Longrightarrow> e = IndexError"
  by (auto simp: index_rows_def split: if_splits)

lemma sample_loop_Inr:
  "sample_loop fs ids features adj acc s = (Inr af, s') \<Longrightarrow>
   length af = length acc + length fs \<and> take (length acc) af = acc"
proof (induction fs arbitrary: ids acc s)
  case Nil
  then show ?case by simp
next
  case (Cons f fs)
  from Cons.prems obtain ids' s1 t where
    "f ids adj s = (Inr ids', s1)" "index_rows features ids' = Inr t"
    "sample_loop fs ids' features adj (acc @ [t]) s1 = (Inr af, s')"
    by (auto split: prod.splits sum.splits)
  from Cons.IH [OF this(3)]
  have "length af = length (acc @ [t]) + length fs" "take (length (acc @ [t])) af = acc @ [t]"
    by simp_all
  then have "length af = length acc + length (f # fs)" "take (length acc) (take (length (acc @ [t])) af) = acc"
    by simp_all
  then show ?case by (simp add: min_def)
qed

lemma sample_loop_Inl:
  "sample_loop fs ids features adj acc s = (Inl e, s') \<Longrightarrow>
   e = IndexError \<or> (\<exists>msg. e = SamplingFailure msg)"
proof (induction fs arbitrary: ids acc s)
  case Nil
  then show ?case by simp
next
  case (Cons f fs)
  show ?case
  proof (cases "f ids adj s")
    case (Pair r s1)
    show ?thesis
    proof (cases r)
      case (Inl msg)
      with Pair Cons.prems show ?thesis by auto
    next
      case (Inr ids')
      show ?thesis
      proof (cases "index_rows features ids'")
        case (Inl e1)
        with Pair Inr Cons.prems index_rows_cases(2) [OF Inl] show ?thesis by simp
      next
        case t: (Inr t)
        with Pair Inr Cons.prems
        have "sample_loop fs ids' features adj (acc @ [t]) s1 = (Inl e, s')" by simp
        then show ?thesis by (rule Cons.IH)
      qed
    qed
  qed
qed

lemma sample_loop_rows:
  assumes "\<And>spec ids adj s r s'. spec \<in> set specs \<Longrightarrow>
             sample_fn spec ids adj (n_samples spec) s = (Inr r, s') \<Longrightarrow>
             length r = length ids * n_samples spec"
    and "sample_loop (map partial_sample_fn specs) ids features adj acc s = (Inr af, s')"
    and "k < length specs"
  shows "shape0 (af ! (length acc + k)) =
         length ids * prod_list (map n_samples (take (Suc k) specs))"
  using assms
proof (induction specs arbitrary: ids acc s k)
  case Nil
  then show ?case by simp
next
  case (Cons spec specs)
  from Cons.prems(2) obtain ids' s1 t where
    call0: "partial_sample_fn spec ids adj s = (Inr ids', s1)" and
    t: "index_rows features ids' = Inr t" and
    rest: "sample_loop (map partial_sample_fn specs) ids' features adj (acc @ [t]) s1 = (Inr af, s')"
    by (auto split: prod.splits sum.splits)
  have call: "sample_fn spec ids adj (n_samples spec) s = (Inr ids', s1)"
    using call0 by (simp add: partial_sample_fn_def)
  have len: "length ids' = length ids * n_samples spec"
    using Cons.prems(1) [OF _ call] by simp
  have contract: "\<And>spec ids adj s r s'. spec \<in> set specs \<Longrightarrow>
             sample_fn spec ids adj (n_samples spec) s = (Inr r, s') \<Longrightarrow>
             length r = length ids * n_samples spec"
    using Cons.prems(1) by simp
  show ?case
  proof (cases k)
    case 0
    have "take (length (acc @ [t])) af = acc @ [t]"
      using sample_loop_Inr [OF rest] by simp
    then have "af ! length acc = (acc @ [t]) ! length acc"
      by (metis length_append_singleton lessI nth_take)
    then have "af ! length acc = t" by simp
    then show ?thesis using 0 len index_rows_cases(1) [OF t] by simp
  next
    case (Suc k')
    then have "k' < length specs" using Cons.prems(3) by simp
    from Cons.IH [OF contract rest this]
    have "shape0 (af ! (length (acc @ [t]) + k')) =
          length ids' * prod_list (map n_samples (take (Suc k') specs))"
      by simp
    then show ?thesis using Suc len by (simp add: mult.assoc)
  qed
qed

lemma try_map_Inr:
  "try_map f xs = Inr ys \<Longrightarrow>
   length ys = length xs \<and> (\<forall>i<length xs. f (xs ! i) = Inr (ys ! i))"
proof (induction xs arbitrary: ys)
  case Nil
  then show ?case by simp
next
  case (Cons x xs)
  from Cons.prems obtain y ys' where
    y: "f x = Inr y" and ys': "try_map f xs = Inr ys'" and ys: "ys = y # ys'"
    by (auto split: sum.splits)
  from Cons.IH [OF ys'] show ?case using y ys by (auto simp: nth_Cons')
qed

lemma try_map_Inl:
  "try_map f xs = Inl e \<Longrightarrow>
   \<exists>i<length xs. f (xs ! i) = Inl e \<and> (\<forall>j<i. \<exists>y. f (xs ! j) = Inr y)"
proof (induction xs)
  case Nil
  then show ?case by simp
next
  case (Cons x xs)
  show ?case
  proof (cases "f x")
    case (Inl e1)
    with Cons.prems have "f ((x # xs) ! 0) = Inl e" by simp
    then show ?thesis by (intro exI [of _ 0]) simp
  next
    case (Inr y)
    with Cons.prems have "try_map f xs = Inl e" by (simp split: sum.splits)
    from Cons.IH [OF this] obtain i where
      i: "i < length xs" "f (xs ! i) = Inl e" "\<forall>j<i. \<exists>y. f (xs ! j) = Inr y"
      by blast
    have "\<forall>j<Suc i. \<exists>y. f ((x # xs) ! j) = Inr y"
      using Inr i(3) by (auto simp: nth_Cons')
    then show ?thesis using i(1,2) by (intro exI [of _ "Suc i"]) simp
  qed
qed

lemma try_map_total:
  "(\<And>x. x \<in> set xs \<Longrightarrow> \<exists>y. f x = Inr y) \<Longrightarrow> \<exists>ys. try_map f xs = Inr ys"
proof (induction xs)
  case Nil
  show ?case by simp
next
  case (Cons x xs)
  then obtain y ys where "f x = Inr y" "try_map f xs = Inr ys"
    by (metis list.set_intros)
  then show ?case by simp
qed

lemma apply_layer_Inr:
  assumes "apply_layer a af = Inr af'"
  shows "length af' = length af - 1"
    and "\<And>k. k < length af - 1 \<Longrightarrow> MeanAggregator_forward a (af ! k) (af ! (k + 1)) = Inr (af' ! k)"
  using try_map_Inr [OF assms [unfolded apply_layer_def]] by simp_all

lemma apply_layer_Inl:
  assumes "apply_layer a af = Inl e"
  shows "\<exists>k<length af - 1. MeanAggregator_forward a (af ! k) (af ! (k + 1)) = Inl e"
  using try_map_Inl [OF assms [unfolded apply_layer_def]] by auto

lemma reduce_layers_append:
  "reduce_layers (as @ bs) af =
   (case reduce_layers as af of Inl e \<Rightarrow> Inl e | Inr af' \<Rightarrow> reduce_layers bs af')"
  by (induction as arbitrary: af) (simp_all split: sum.splits)

lemma reduce_layers_snoc:
  "reduce_layers (as @ [a]) af =
   (case reduce_layers as af of Inl e \<Rightarrow> Inl e | Inr af' \<Rightarrow> apply_layer a af')"
  by (simp add: reduce_layers_append split: sum.splits)

lemma reduce_layers_length:
  "reduce_layers as af = Inr af' \<Longrightarrow> length af' = length af - length as"
proof (induction as arbitrary: af)
  case Nil
  then show ?case by simp
next
  case (Cons a as)
  from Cons.prems obtain af1 where
    1: "apply_layer a af = Inr af1" and 2: "reduce_layers as af1 = Inr af'"
    by (auto split: sum.splits)
  show ?case using Cons.IH [OF 2] apply_layer_Inr(1) [OF 1] by simp
qed

lemma reduce_layers_Inl:
  "reduce_layers as af = Inl e \<Longrightarrow>
   \<exists>j<length as. \<exists>af_j. reduce_layers (take j as) af = Inr af_j \<and> apply_layer (as ! j) af_j = Inl e"
proof (induction as arbitrary: af)
  case Nil
  then show ?case by simp
next
  case (Cons a as)
  show ?case
  proof (cases "apply_layer a af")
    case (Inl e1)
    with Cons.prems have "apply_layer ((a # as) ! 0) af = Inl e" by simp
    then show ?thesis by (intro exI [of _ 0]) simp
  next
    case (Inr af1)
    with Cons.prems have "reduce_layers as af1 = Inl e" by simp
    from Cons.IH [OF this] obtain j af_j where
      "j < length as" "reduce_layers (take j as) af1 = Inr af_j" "apply_layer (as ! j) af_j = Inl e"
      by blast
    then show ?thesis using Inr by (intro exI [of _ "Suc j"]) simp
  qed
qed


lemma view3_Inl:
  "view3 t a c = Inl e \<Longrightarrow> e = ViewShapeInvalid \<or> e = ViewAmbiguous"
  by (auto simp: view3_def Let_def split: if_splits)

lemma MeanAggregator_forward_error:
  assumes "MeanAggregator_forward agg x neibs = Inl e" "combine_fn agg = cat_dim1"
  shows "e = LinearSizeMismatch \<or> e = ViewShapeInvalid \<or> e = ViewAmbiguous"
  using MeanAggregator_forward_Inl [OF assms] view3_Inl by blast

lemma GSSupervised_sample_Inr:
  assumes "GSSupervised_sample m ids features adj s = (Inr af, s')"
  shows "length af = length (sampler_fns m) + 1"
    and "index_rows features ids = Inr (af ! 0)"
    and "sample_loop (sampler_fns m) ids features adj [af ! 0] s = (Inr af, s')"
proof -
  from assms obtain t where
    t: "index_rows features ids = Inr t" and
    loop: "sample_loop (sampler_fns m) ids features adj [t] s = (Inr af, s')"
    by (auto simp: GSSupervised_sample_def split: sum.splits)
  from sample_loop_Inr [OF loop] have len: "length af = length (sampler_fns m) + 1"
    and "take 1 af = [t]" by simp_all
  then have "af ! 0 = t" by (cases af) simp_all
  then show "index_rows features ids = Inr (af ! 0)"
    and "sample_loop (sampler_fns m) ids features adj [af ! 0] s = (Inr af, s')"
    using t loop by simp_all
  show "length af = length (sampler_fns m) + 1" by (rule len)
qed

lemma GSSupervised_sample_Inl:
  assumes "GSSupervised_sample m ids features adj s = (Inl e, s')"
  shows "e = IndexError \<or> (\<exists>msg. e = SamplingFailure msg)"
proof (cases "index_rows features ids")
  case (Inl e1)
  then show ?thesis using assms index_rows_cases(2) [OF Inl]
    by (simp add: GSSupervised_sample_def)
next
  case (Inr t)
  then have "sample_loop (sampler_fns m) ids features adj [t] s = (Inl e, s')"
    using assms by (simp add: GSSupervised_sample_def)
  then show ?thesis by (rule sample_loop_Inl)
qed

lemma reduce_layers_error:
  assumes "reduce_layers as af = Inl e" "\<And>a. a \<in> set as \<Longrightarrow> combine_fn a = cat_dim1"
  shows "e = LinearSizeMismatch \<or> e = ViewShapeInvalid \<or> e = ViewAmbiguous"
proof -
  from reduce_layers_Inl [OF assms(1)] obtain j af_j where
    j: "j < length as" and "apply_layer (as ! j) af_j = Inl e"
    by blast
  from apply_layer_Inl [OF this(2)] obtain k where
    "MeanAggregator_forward (as ! j) (af_j ! k) (af_j ! (k + 1)) = Inl e"
    by blast
  moreover have "combine_fn (as ! j) = cat_dim1" using j assms(2) by simp
  ultimately show ?thesis by (rule MeanAggregator_forward_error)
qed

lemma GSSupervised_forward_Inl:
  assumes "GSSupervised_forward m ids features adj s = (Inl e, s')"
  shows "GSSupervised_sample m ids features adj s = (Inl e, s') \<or>
         (\<exists>af. GSSupervised_sample m ids features adj s = (Inr af, s') \<and>
               (reduce_layers (children m) af = Inl e \<or>
                (\<exists>af'. reduce_layers (children m) af = Inr af' \<and>
                       (length af' \<noteq> 1 \<and> e = AssertionError \<or>
                        length af' = 1 \<and> e = LinearSizeMismatch))))"
proof (cases "GSSupervised_sample m ids features adj s")
  case (Pair r s1)
  show ?thesis
  proof (cases r)
    case (Inl e1)
    with Pair assms show ?thesis by (simp add: GSSupervised_forward_def)
  next
    case af: (Inr af)
    show ?thesis
    proof (cases "reduce_layers (children m) af")
      case (Inl e2)
      with Pair af assms show ?thesis by (simp add: GSSupervised_forward_def)
    next
      case (Inr af')
      show ?thesis
      proof (cases "length af' = 1")
        case True
        with Pair af Inr assms
        have "Linear_forward (fc m) (normalize (af' ! 0)) = Inl e" and "s1 = s'"
          by (simp_all add: GSSupervised_forward_def)
        then show ?thesis using Pair af Inr True Linear_forward_cases(1) by blast
      next
        case False
        with Pair af Inr assms show ?thesis by (simp add: GSSupervised_forward_def)
      qed
    qed
  qed
qed

lemma apply_layer_rows:
  assumes "apply_layer a af = Inr af'" "combine_fn a = cat_dim1"
  shows "map shape0 af' = butlast (map shape0 af)"
proof (rule nth_equalityI)
  show "length (map shape0 af') = length (butlast (map shape0 af))"
    using apply_layer_Inr(1) [OF assms(1)] by simp
  fix k assume "k < length (map shape0 af')"
  then have k: "k < length af - 1" using apply_layer_Inr(1) [OF assms(1)] by simp
  have "shape0 (af' ! k) = shape0 (af ! k)"
    using MeanAggregator_forward_Inr [OF apply_layer_Inr(2) [OF assms(1) k] assms(2)] by simp
  then show "map shape0 af' ! k = butlast (map shape0 af) ! k"
    using k apply_layer_Inr(1) [OF assms(1)] by (simp add: nth_butlast)
qed

lemma reduce_layers_rows:
  assumes "reduce_layers as af = Inr af'" "\<And>a. a \<in> set as \<Longrightarrow> combine_fn a = cat_dim1"
  shows "map shape0 af' = take (length af - length as) (map shape0 af)"
  using assms
proof (induction as arbitrary: af)
  case Nil
  then show ?case by simp
next
  case (Cons a as)
  from Cons.prems(1) obtain af1 where
    1: "apply_layer a af = Inr af1" and 2: "reduce_layers as af1 = Inr af'"
    by (auto split: sum.splits)
  have "map shape0 af1 = take (length af - 1) (map shape0 af)"
    using apply_layer_rows [OF 1] Cons.prems(2) by (simp add: butlast_conv_take)
  moreover have "map shape0 af' = take (length af1 - length as) (map shape0 af1)"
    using Cons.IH [OF 2] Cons.prems(2) by simp
  moreover have "length af1 = length af - 1" by (rule apply_layer_Inr(1) [OF 1])
  ultimately show ?case by (simp add: min_def)
qed


lemma example_model_init:
  "GSSupervised_init 2 1 [example_spec 2 1, example_spec 1 2] 0 0 example_init = Inr example_model"
  by (simp add: GSSupervised_init_def MeanAggregator_output_dim_cat example_model_def
      example_spec_def example_init_def)

lemma example_children:
  "children example_model =
     [MeanAggregator_init 0 2 1 (Some relu) cat_dim1 (\<lambda>k c. 1) (\<lambda>k c. 2),
      MeanAggregator_init 1 2 2 (Some relu) cat_dim1 (\<lambda>k c. 1) (\<lambda>k c. 2)]"
  by (simp add: children_def example_model_def)

lemma example_sample:
  "GSSupervised_sample example_model [0] triangle_features triangle_adj () = (Inr example_levels, ())"
  by (simp add: GSSupervised_sample_def example_model_def partial_sample_fn_def example_spec_def
      round_robin_sampler_def triangle_adj_def triangle_features_def index_rows_def row_def
      example_levels_def upt_rec)

lemmas aggregator_eval =
  apply_layer_def example_levels_def MeanAggregator_forward_def MeanAggregator_init_def
  Linear_forward_def Linear_init_def view3_def mean_dim1_def at3_def cat_dim1_def row_def
  map_tensor_def relu_def tabulate2_def at2_def dot_def Let_def upt_rec

lemma example_round1:
  "apply_layer (MeanAggregator_init 0 2 1 (Some relu) cat_dim1 (\<lambda>k c. 1) (\<lambda>k c. 2)) example_levels =
     Inr [\<lparr>shape0 = 1, shape1 = 2, data = [1, 3]\<rparr>, \<lparr>shape0 = 2, shape1 = 2, data = [1, 4, 2, 2]\<rparr>]"
  by (simp add: aggregator_eval)

lemma example_round2:
  "apply_layer (MeanAggregator_init 1 2 2 (Some relu) cat_dim1 (\<lambda>k c. 1) (\<lambda>k c. 2))
     [\<lparr>shape0 = 1, shape1 = 2, data = [1, 3]\<rparr>, \<lparr>shape0 = 2, shape1 = 2, data = [1, 4, 2, 2]\<rparr>] =
     Inr [\<lparr>shape0 = 1, shape1 = 4, data = [4, 4, 9, 9]\<rparr>]"
  by (simp add: aggregator_eval)

lemma example_round1_swapped:
  "apply_layer (MeanAggregator_init 1 2 2 (Some relu) cat_dim1 (\<lambda>k c. 1) (\<lambda>k c. 2)) example_levels =
     Inr [\<lparr>shape0 = 1, shape1 = 4, data = [1, 1, 3, 3]\<rparr>,
          \<lparr>shape0 = 2, shape1 = 4, data = [1, 1, 4, 4, 2, 2, 2, 2]\<rparr>]"
  by (simp add: aggregator_eval)

lemma example_round2_swapped:
  "apply_layer (MeanAggregator_init 0 2 1 (Some relu) cat_dim1 (\<lambda>k c. 1) (\<lambda>k c. 2))
     [\<lparr>shape0 = 1, shape1 = 4, data = [1, 1, 3, 3]\<rparr>,
      \<lparr>shape0 = 2, shape1 = 4, data = [1, 1, 4, 4, 2, 2, 2, 2]\<rparr>] =
     Inl LinearSizeMismatch"
  by (simp add: aggregator_eval)


lemma reduce_layers_take_Suc:
  assumes "j < length as"
  shows "reduce_layers (take (Suc j) as) af =
         (case reduce_layers (take j as) af of Inl e \<Rightarrow> Inl e | Inr af_j \<Rightarrow> apply_layer (as ! j) af_j)"
  using assms by (simp add: take_Suc_conv_app_nth reduce_layers_snoc)

lemma round_robin_sampler_length:
  assumes "round_robin_sampler ids adj n s = (Inr r, s')"
  shows "length r = length ids * n"
proof -
  have "r = concat (map (\<lambda>i. map (\<lambda>j. adj i ! (j mod length (adj i))) [0..<n]) ids)"
    using assms by (auto simp: round_robin_sampler_def split: if_splits)
  moreover have "length (concat (map (\<lambda>i. map (\<lambda>j. adj i ! (j mod length (adj i))) [0..<n]) ids)) =
        length (map (\<lambda>i. map (\<lambda>j. adj i ! (j mod length (adj i))) [0..<n]) ids) * n"
    by (rule length_concat_uniform) auto
  ultimately show ?thesis by simp
qed

lemma sampled_rows:
  assumes init: "GSSupervised_init input_dim num_classes layer_specs lr wd iv = Inr m"
    and contract: "\<And>spec ids adj s r s'. spec \<in> set layer_specs \<Longrightarrow>
             sample_fn spec ids adj (n_samples spec) s = (Inr r, s') \<Longrightarrow>
             length r = length ids * n_samples spec"
    and sample: "GSSupervised_sample m ids features adj s = (Inr af, s')"
    and k: "k \<le> length layer_specs"
  shows "shape0 (af ! k) = length ids * prod_list (map n_samples (take k layer_specs))"
proof (cases k)
  case 0
  then show ?thesis
    using index_rows_cases(1) [OF GSSupervised_sample_Inr(2) [OF sample]] by simp
next
  case (Suc k')
  then have k': "k' < length layer_specs" using k by simp
  have loop: "sample_loop (map partial_sample_fn layer_specs) ids features adj [af ! 0] s = (Inr af, s')"
    using GSSupervised_sample_Inr(3) [OF sample] GSSupervised_init_fields(1) [OF init] by simp
  have "shape0 (af ! (length [af ! 0] + k')) =
        length ids * prod_list (map n_samples (take (Suc k') layer_specs))"
    using contract loop k' by (rule sample_loop_rows)
  then show ?thesis using Suc by simp
qed

lemma levels_rows_after_rounds:
  assumes init: "GSSupervised_init input_dim num_classes layer_specs lr wd iv = Inr m"
    and contract: "\<And>spec ids adj s r s'. spec \<in> set layer_specs \<Longrightarrow>
             sample_fn spec ids adj (n_samples spec) s = (Inr r, s') \<Longrightarrow>
             length r = length ids * n_samples spec"
    and sample: "GSSupervised_sample m ids features adj s = (Inr af, s')"
    and rounds: "reduce_layers (take j (children m)) af = Inr af_j"
    and k: "k + j \<le> length layer_specs"
  shows "shape0 (af_j ! k) = length ids * prod_list (map n_samples (take k layer_specs))"
proof -
  have ch: "children m = agg_layers m" by (rule children_init [OF init])
  have len: "length af = length layer_specs + 1"
    using GSSupervised_sample_Inr(1) [OF sample] GSSupervised_init_fields(1) [OF init] by simp
  have cat: "\<And>a. a \<in> set (take j (children m)) \<Longrightarrow> combine_fn a = cat_dim1"
    using agg_layers_combine_fn [OF init] ch by (auto dest: in_set_takeD)
  have rows: "map shape0 af_j = take (length af - length (take j (children m))) (map shape0 af)"
    using rounds cat by (rule reduce_layers_rows)
  have lj: "length (take j (children m)) = j"
    using k ch GSSupervised_init_fields(2) [OF init] by simp
  have kk: "k < length af - j" "k < length af" using k len by simp_all
  have "length af_j = length af - j"
    using reduce_layers_length [OF rounds] lj by simp
  then have "shape0 (af_j ! k) = map shape0 af_j ! k" using kk by simp
  also have "\<dots> = shape0 (af ! k)" using rows lj kk by simp
  also have "\<dots> = length ids * prod_list (map n_samples (take k layer_specs))"
  proof -
    have "k \<le> length layer_specs" using k by simp
    with init contract sample show ?thesis by (rule sampled_rows)
  qed
  finally show ?thesis .
qed

section \<open>Facts about gradient clipping\<close>

lemma sum_squares_scale:
  "sum_list (map (\<lambda>i. (g i * c)\<^sup>2) xs) = c\<^sup>2 * sum_list (map (\<lambda>i. (g i :: real)\<^sup>2) xs)"
  by (induction xs) (simp_all add: power_mult_distrib algebra_simps)

lemma total_norm_nonneg: "0 \<le> total_norm n g"
proof -
  have "0 \<le> sum_list (map (\<lambda>i. (g i)\<^sup>2) [0..<n])"
    by (rule sum_list_nonneg) auto
  then show ?thesis by (simp add: total_norm_def)
qed

lemma total_norm_scale:
  assumes "0 \<le> c"
  shows "total_norm n (\<lambda>i. g i * c) = c * total_norm n g"
  using assms by (simp add: total_norm_def sum_squares_scale real_sqrt_mult)

lemma clip_grad_norm_bound:
  assumes "0 < max_norm"
  shows "total_norm n (clip_grad_norm n max_norm g) \<le> max_norm"
proof -
  define t where "t = total_norm n g"
  define c where "c = max_norm / (t + 1 / 10 ^ 6)"
  have t: "0 \<le> t" by (simp add: t_def total_norm_nonneg)
  have d: "0 < t + 1 / 10 ^ 6" using t by (simp add: add_nonneg_pos)
  have c: "0 < c" using assms d by (simp add: c_def)
  have clip: "clip_grad_norm n max_norm g = (if c < 1 then (\<lambda>i. g i * c) else g)"
    by (simp add: clip_grad_norm_def Let_def c_def t_def)
  show ?thesis
  proof (cases "c < 1")
    case True
    have "total_norm n (clip_grad_norm n max_norm g) = c * t"
      using True c by (simp add: clip total_norm_scale t_def)
    also have "\<dots> = max_norm * (t / (t + 1 / 10 ^ 6))" by (simp add: c_def)
    also have "\<dots> \<le> max_norm * 1"
    proof (rule mult_left_mono)
      show "t / (t + 1 / 10 ^ 6) \<le> 1" using d by (simp add: divide_le_eq)
      show "0 \<le> max_norm" using assms by simp
    qed
    finally show ?thesis by simp
  next
    case False
    then have "1 \<le> max_norm / (t + 1 / 10 ^ 6)" by (simp add: c_def)
    then have "t + 1 / 10 ^ 6 \<le> max_norm" using d by (simp add: le_divide_eq)
    then have "t \<le> max_norm" by simp
    then show ?thesis
      using False by (simp add: clip t_def)
  qed
qed

lemma train_step_unfold:
  "train_step differentiate optimizer_step st ids features adj labels s =
     (case GSSupervised_forward (net st) ids features adj s of
        (Inl e, s') \<Rightarrow> ((Inl e, s'), st\<lparr>grad := (\<lambda>i. 0)\<rparr>)
      | (Inr preds, s') \<Rightarrow>
          (case multilabel_soft_margin_loss preds labels of
             Inl e \<Rightarrow> ((Inl e, s'), st\<lparr>grad := (\<lambda>i. 0)\<rparr>)
           | Inr loss \<Rightarrow>
               (let g = clip_grad_norm (num_parameters (net st)) 5
                          (differentiate (\<lambda>m'. batch_loss m' ids features adj labels s) (net st));
                    (o', m') = optimizer_step (optimizer_state st) (net st) g
                in ((Inr (preds, loss), s'), \<lparr>net = m', grad = g, optimizer_state = o'\<rparr>)))) \<and>
   total_norm (num_parameters (net st))
     (clip_grad_norm (num_parameters (net st)) 5 (differentiate (\<lambda>m'. batch_loss m' ids features adj labels s) (net st))) \<le> 5"
proof
  show "total_norm (num_parameters (net st))
     (clip_grad_norm (num_parameters (net st)) 5 (differentiate (\<lambda>m'. batch_loss m' ids features adj labels s) (net st))) \<le> 5"
    by (rule clip_grad_norm_bound) simp
  show "train_step differentiate optimizer_step st ids features adj labels s =
     (case GSSupervised_forward (net st) ids features adj s of
        (Inl e, s') \<Rightarrow> ((Inl e, s'), st\<lparr>grad := (\<lambda>i. 0)\<rparr>)
      | (Inr preds, s') \<Rightarrow>
          (case multilabel_soft_margin_loss preds labels of
             Inl e \<Rightarrow> ((Inl e, s'), st\<lparr>grad := (\<lambda>i. 0)\<rparr>)
           | Inr loss \<Rightarrow>
               (let g = clip_grad_norm (num_parameters (net st)) 5
                          (differentiate (\<lambda>m'. batch_loss m' ids features adj labels s) (net st));
                    (o', m') = optimizer_step (optimizer_state st) (net st) g
                in ((Inr (preds, loss), s'), \<lparr>net = m', grad = g, optimizer_state = o'\<rparr>))))"
  proof (cases "GSSupervised_forward (net st) ids features adj s")
    case (Pair r s')
    show ?thesis
    proof (cases r)
      case (Inl e)
      with Pair show ?thesis by (simp add: train_step_def zero_grad_def)
    next
      case preds: (Inr preds)
      show ?thesis
      proof (cases "multilabel_soft_margin_loss preds labels")
        case (Inl e)
        with Pair preds show ?thesis by (simp add: train_step_def zero_grad_def)
      next
        case (Inr loss)
        with Pair preds show ?thesis
          by (cases "optimizer_step (optimizer_state st) (net st)
                       (clip_grad_norm (num_parameters (net st)) 5
                          (differentiate (\<lambda>m'. batch_loss m' ids features adj labels s) (net st)))")
            (simp add: train_step_def zero_grad_def Let_def)
      qed
    qed
  qed
qed

lemma MeanAggregator_forward_combined:
  assumes "wf_tensor neibs"
    and "shape0 x = N" "shape1 x = D_in" "shape0 neibs = N * n" "shape1 neibs = D_in"
    and "0 < N" "0 < n" "0 < D_in"
  shows "let agg = MeanAggregator_init k D_in D_out act comb wx wn;
             x_emb = tabulate2 N D_out (\<lambda>i c. dot D_in (at2 x i) (wx c));
             neib_emb = tabulate2 N D_out (\<lambda>i c. dot D_in (at2 (pooled N n neibs) i) (wn c))
         in Linear_forward (fc_x agg) x = Inr x_emb
          \<and> Linear_forward (fc_neib agg) (pooled N n neibs) = Inr neib_emb
          \<and> MeanAggregator_forward agg x neibs =
              (case comb [x_emb, neib_emb] of
                 Inl e \<Rightarrow> Inl e
               | Inr out \<Rightarrow> Inr (case act of None \<Rightarrow> out | Some f \<Rightarrow> map_tensor f out))
          \<and> (act = None \<longrightarrow> MeanAggregator_forward agg x neibs = comb [x_emb, neib_emb])
          \<and> cat_dim1 [x_emb, neib_emb] =
              Inr (tabulate2 N (2 * D_out)
                    (\<lambda>i j. if j < D_out then at2 x_emb i j else at2 neib_emb i (j - D_out)))"
proof -
  define agg where "agg = MeanAggregator_init k D_in D_out act comb wx wn"
  define x_emb where "x_emb = tabulate2 N D_out (\<lambda>i c. dot D_in (at2 x i) (wx c))"
  define neib_emb where
    "neib_emb = tabulate2 N D_out (\<lambda>i c. dot D_in (at2 (pooled N n neibs) i) (wn c))"
  have shp: "shape0 (pooled N n neibs) = N" "shape1 (pooled N n neibs) = D_in"
    using assms(5) by (simp_all add: pooled_def)
  have fx: "Linear_forward (fc_x agg) x = Inr x_emb"
    using assms(2,3) by (simp add: agg_def x_emb_def Linear_forward_no_bias)
  have fn: "Linear_forward (fc_neib agg) (pooled N n neibs) = Inr neib_emb"
    using shp by (simp add: agg_def neib_emb_def Linear_forward_no_bias)
  have "MeanAggregator_forward agg x neibs =
     (case Linear_forward (fc_x agg) x of
        Inl e \<Rightarrow> Inl e
      | Inr x_emb \<Rightarrow>
          (case Linear_forward (fc_neib agg) (pooled (shape0 x) n neibs) of
             Inl e \<Rightarrow> Inl e
           | Inr neib_emb \<Rightarrow>
               (case combine_fn agg [x_emb, neib_emb] of
                  Inl e \<Rightarrow> Inl e
                | Inr out \<Rightarrow>
                    Inr (case activation agg of None \<Rightarrow> out | Some f \<Rightarrow> map_tensor f out))))"
    using assms by (intro MeanAggregator_forward_pooled) simp_all
  then have fwd: "MeanAggregator_forward agg x neibs =
              (case comb [x_emb, neib_emb] of
                 Inl e \<Rightarrow> Inl e
               | Inr out \<Rightarrow> Inr (case act of None \<Rightarrow> out | Some f \<Rightarrow> map_tensor f out))"
    using fx fn assms(2) by (cases "comb [x_emb, neib_emb]") (simp_all add: agg_def)
  have none: "act = None \<longrightarrow> MeanAggregator_forward agg x neibs = comb [x_emb, neib_emb]"
    using fwd by (simp split: sum.splits)
  have sh: "shape0 x_emb = N" "shape1 x_emb = D_out" "shape0 neib_emb = N"
    "shape1 neib_emb = D_out" "wf_tensor x_emb" "wf_tensor neib_emb"
    by (simp_all add: x_emb_def neib_emb_def)
  have "cat_dim1 [x_emb, neib_emb] =
        Inr (tabulate2 (shape0 x_emb) (shape1 x_emb + shape1 neib_emb)
               (\<lambda>i j. if j < shape1 x_emb then at2 x_emb i j else at2 neib_emb i (j - shape1 x_emb)))"
    by (rule cat_dim1_pair) (simp_all add: sh)
  then have cat: "cat_dim1 [x_emb, neib_emb] =
              Inr (tabulate2 N (2 * D_out)
                    (\<lambda>i j. if j < D_out then at2 x_emb i j else at2 neib_emb i (j - D_out)))"
    by (simp only: sh mult_2)
  show ?thesis
    using fx fn fwd none cat
    unfolding Let_def agg_def [symmetric] x_emb_def [symmetric] neib_emb_def [symmetric]
    by blast
qed

lemma map_tensor_record:
  "map_tensor f t = \<lparr>shape0 = shape0 t, shape1 = shape1 t, data = map f (data t)\<rparr>"
  by (simp add: map_tensor_def)

lemma map_tensor_tabulate2:
  "map_tensor f (tabulate2 r c h) = tabulate2 r c (\<lambda>i j. f (h i j))"
  by (simp add: map_tensor_def tabulate2_def map_concat comp_def)

lemma at2_pooled:
  assumes "wf_tensor t" "shape0 t = N * n" "i < N" "j < shape1 t"
  shows "at2 (pooled N n t) i j = sum_list (map (\<lambda>s. at2 t (i * n + s) j) [0..<n]) / real n"
proof -
  have "at2 (pooled N n t) i j =
        sum_list (map (\<lambda>v. v ! j) (group_rows n t i)) / real (length (group_rows n t i))"
    using assms(3,4) by (simp add: pooled_eq_tabulate2)
  moreover have "length (group_rows n t i) = n" by (simp add: group_rows_def)
  ultimately show ?thesis using group_rows_nth [OF assms] by simp
qed

lemma index_rows_tabulate2:
  assumes "wf_tensor features" "list_all (\<lambda>i. i < shape0 features) ids"
  shows "index_rows features ids =
         Inr (tabulate2 (length ids) (shape1 features) (\<lambda>i c. at2 features (ids ! i) c))"
proof -
  have "map (row features) ids =
        map (\<lambda>i. map (\<lambda>c. at2 features (ids ! i) c) [0..<shape1 features]) [0..<length ids]"
  proof (rule nth_equalityI)
    show "length (map (row features) ids) =
          length (map (\<lambda>i. map (\<lambda>c. at2 features (ids ! i) c) [0..<shape1 features]) [0..<length ids])"
      by simp
    fix i assume "i < length (map (row features) ids)"
    then have i: "i < length ids" by simp
    then have "ids ! i < shape0 features" using assms(2) by (simp add: list_all_length)
    then have "row features (ids ! i) = map (at2 features (ids ! i)) [0..<shape1 features]"
      using assms(1) by (rule row_eq_map_at2 [rotated])
    then show "map (row features) ids ! i =
          map (\<lambda>i. map (\<lambda>c. at2 features (ids ! i) c) [0..<shape1 features]) [0..<length ids] ! i"
      using i by simp
  qed
  then show ?thesis using assms(2) by (simp add: index_rows_def tabulate2_def)
qed

lemma normalize_tabulate2:
  "normalize (tabulate2 r c h) =
   tabulate2 r c (\<lambda>i j. h i j / max (sqrt (sum_list (map (\<lambda>c'. (h i c')\<^sup>2) [0..<c]))) (1 / 10 ^ 12))"
proof -
  have "tabulate2 r c (\<lambda>i j. at2 (tabulate2 r c h) i j /
           max (sqrt (sum_list (map (\<lambda>c'. (at2 (tabulate2 r c h) i c')\<^sup>2) [0..<c]))) (1 / 10 ^ 12)) =
        tabulate2 r c (\<lambda>i j. h i j / max (sqrt (sum_list (map (\<lambda>c'. (h i c')\<^sup>2) [0..<c]))) (1 / 10 ^ 12))"
  proof (rule tabulate2_cong)
    fix i j assume ij: "i < r" "j < c"
    have m: "map (\<lambda>c'. (at2 (tabulate2 r c h) i c')\<^sup>2) [0..<c] = map (\<lambda>c'. (h i c')\<^sup>2) [0..<c]"
      using ij(1) by (intro map_cong) simp_all
    have e: "at2 (tabulate2 r c h) i j = h i j" using ij by simp
    show "at2 (tabulate2 r c h) i j /
           max (sqrt (sum_list (map (\<lambda>c'. (at2 (tabulate2 r c h) i c')\<^sup>2) [0..<c]))) (1 / 10 ^ 12) =
        h i j / max (sqrt (sum_list (map (\<lambda>c'. (h i c')\<^sup>2) [0..<c]))) (1 / 10 ^ 12)"
      unfolding m e ..
  qed
  then show ?thesis by (simp add: normalize_def row_norm_def)
qed

lemma Linear_forward_bias:
  assumes "shape1 x = n_in"
  shows "Linear_forward (Linear_init n_in n_out w (Some b)) x =
         Inr (tabulate2 (shape0 x) n_out
                (\<lambda>i k. sum_list (map (\<lambda>c. at2 x i c * w k c) [0..<n_in]) + b k))"
proof -
  have "tabulate2 (shape0 x) n_out
          (\<lambda>i k. dot n_in (at2 x i) (at2 (tabulate2 n_out n_in w) k) + map b [0..<n_out] ! k) =
        tabulate2 (shape0 x) n_out
          (\<lambda>i k. sum_list (map (\<lambda>c. at2 x i c * w k c) [0..<n_in]) + b k)"
  proof (rule tabulate2_cong)
    fix i k assume ik: "i < shape0 x" "k < n_out"
    then have "dot n_in (at2 x i) (at2 (tabulate2 n_out n_in w) k) = dot n_in (at2 x i) (w k)"
      by (intro dot_cong) simp_all
    then show "dot n_in (at2 x i) (at2 (tabulate2 n_out n_in w) k) + map b [0..<n_out] ! k =
               sum_list (map (\<lambda>c. at2 x i c * w k c) [0..<n_in]) + b k"
      using ik by (simp add: dot_def)
  qed
  then show ?thesis using assms by (simp add: Linear_forward_def)
qed

lemma sum_squares_divide:
  "sum_list (map (\<lambda>i. (g i / c)\<^sup>2) xs) = sum_list (map (\<lambda>i. (g i :: real)\<^sup>2) xs) / c\<^sup>2"
  by (induction xs) (simp_all add: power_divide add_divide_distrib)

lemma normalize_unit_rows:
  assumes "wf_tensor t" "i < shape0 t"
    and "1 / 10 ^ 12 \<le> sqrt (sum_list (map (\<lambda>c. (at2 t i c)\<^sup>2) [0..<shape1 t]))"
  shows "sqrt (sum_list (map (\<lambda>c. (at2 (normalize t) i c)\<^sup>2) [0..<shape1 t])) = 1"
proof -
  define nrm where "nrm = sqrt (sum_list (map (\<lambda>c. (at2 t i c)\<^sup>2) [0..<shape1 t]))"
  have "(0::real) < 1 / 10 ^ 12" by simp
  then have pos: "0 < nrm" using assms(3) unfolding nrm_def by (rule less_le_trans)
  have sq: "nrm\<^sup>2 = sum_list (map (\<lambda>c. (at2 t i c)\<^sup>2) [0..<shape1 t])"
    unfolding nrm_def by (rule real_sqrt_pow2) (rule sum_list_nonneg, auto)
  have mx: "max nrm (1 / 10 ^ 12) = nrm" using assms(3) by (simp add: nrm_def max_def)
  have "map (\<lambda>c. (at2 (normalize t) i c)\<^sup>2) [0..<shape1 t] =
        map (\<lambda>c. (at2 t i c / nrm)\<^sup>2) [0..<shape1 t]"
  proof (rule map_cong [OF refl])
    fix c assume "c \<in> set [0..<shape1 t]"
    then have "at2 (normalize t) i c = at2 t i c / max nrm (1 / 10 ^ 12)"
      using assms(2) by (simp add: normalize_def row_norm_def nrm_def)
    then show "(at2 (normalize t) i c)\<^sup>2 = (at2 t i c / nrm)\<^sup>2" by (simp only: mx)
  qed
  then have "sum_list (map (\<lambda>c. (at2 (normalize t) i c)\<^sup>2) [0..<shape1 t]) = nrm\<^sup>2 / nrm\<^sup>2"
    by (simp only: sum_squares_divide sq)
  then show ?thesis using pos by simp
qed


lemma forward_without_layers_entries:
  assumes m: "GSSupervised_forward m ids features adj s =
            (case index_rows features ids of
               Inl e \<Rightarrow> Inl e
             | Inr t \<Rightarrow> Linear_forward (fc m) (normalize t), s)"
    and fc: "fc m = Linear_init input_dim num_classes w (Some b)"
    and wf: "wf_tensor features" and ids: "list_all (\<lambda>i. i < shape0 features) ids"
    and width: "shape1 features = input_dim"
  shows "GSSupervised_forward m ids features adj s =
          (Inr (tabulate2 (length ids) num_classes
             (\<lambda>i k. sum_list (map (\<lambda>c.
                  at2 features (ids ! i) c
                    / max (sqrt (sum_list (map (\<lambda>c'. (at2 features (ids ! i) c')\<^sup>2) [0..<input_dim])))
                          (1 / 10 ^ 12)
                  * w k c) [0..<input_dim]) + b k)), s)"
proof -
  define h where "h = (\<lambda>i j. at2 features (ids ! i) j /
      max (sqrt (sum_list (map (\<lambda>c'. (at2 features (ids ! i) c')\<^sup>2) [0..<input_dim]))) (1 / 10 ^ 12))"
  have ix: "index_rows features ids =
         Inr (tabulate2 (length ids) input_dim (\<lambda>i c. at2 features (ids ! i) c))"
    using index_rows_tabulate2 [OF wf ids] width by simp
  have nz: "normalize (tabulate2 (length ids) input_dim (\<lambda>i c. at2 features (ids ! i) c)) =
            tabulate2 (length ids) input_dim h"
    by (simp add: normalize_tabulate2 h_def)
  have "Linear_forward (fc m) (tabulate2 (length ids) input_dim h) =
        Inr (tabulate2 (shape0 (tabulate2 (length ids) input_dim h)) num_classes
               (\<lambda>i k. sum_list (map (\<lambda>c. at2 (tabulate2 (length ids) input_dim h) i c * w k c)
                                   [0..<input_dim]) + b k))"
    unfolding fc by (rule Linear_forward_bias) simp
  also have "tabulate2 (shape0 (tabulate2 (length ids) input_dim h)) num_classes
               (\<lambda>i k. sum_list (map (\<lambda>c. at2 (tabulate2 (length ids) input_dim h) i c * w k c)
                                   [0..<input_dim]) + b k) =
             tabulate2 (length ids) num_classes
               (\<lambda>i k. sum_list (map (\<lambda>c. h i c * w k c) [0..<input_dim]) + b k)"
  proof -
    have mp: "map (\<lambda>c. at2 (tabulate2 (length ids) input_dim h) i c * w k c) [0..<input_dim] =
          map (\<lambda>c. h i c * w k c) [0..<input_dim]" if "i < length ids" for i k
      using that by (intro map_cong) simp_all
    have "tabulate2 (length ids) num_classes
               (\<lambda>i k. sum_list (map (\<lambda>c. at2 (tabulate2 (length ids) input_dim h) i c * w k c)
                                   [0..<input_dim]) + b k) =
             tabulate2 (length ids) num_classes
               (\<lambda>i k. sum_list (map (\<lambda>c. h i c * w k c) [0..<input_dim]) + b k)"
      by (rule tabulate2_cong) (simp only: mp)
    then show ?thesis by simp
  qed
  finally have "Linear_forward (fc m) (tabulate2 (length ids) input_dim h) =
        Inr (tabulate2 (length ids) num_classes
               (\<lambda>i k. sum_list (map (\<lambda>c. h i c * w k c) [0..<input_dim]) + b k))" .
  then show ?thesis using m ix nz by (simp add: h_def)
qed

lemma Linear_numel_init:
  "Linear_numel (Linear_init n_in n_out w None) = n_out * n_in"
  "Linear_numel (Linear_init n_in n_out w (Some b)) = n_out * n_in + n_out"
  by (simp_all add: Linear_numel_def)

lemma num_parameters_init:
  assumes "GSSupervised_init input_dim num_classes specs lr wd iv = Inr m"
  shows "num_parameters m =
         sum_list (map (\<lambda>k. 2 * (spec_output_dim (specs ! k)
                                   * (if k = 0 then input_dim else 2 * spec_output_dim (specs ! (k - 1)))))
                    [0..<length specs])
         + num_classes * (if specs = [] then input_dim else 2 * spec_output_dim (last specs))
         + num_classes"
proof -
  note f = GSSupervised_init_fields [OF assms]
  have al: "agg_layers m =
        map (\<lambda>k. MeanAggregator_init k
               (if k = 0 then input_dim else 2 * spec_output_dim (specs ! (k - 1)))
               (spec_output_dim (specs ! k)) (spec_activation (specs ! k)) cat_dim1
               (init_fc_x iv k) (init_fc_neib iv k)) [0..<length specs]"
    using f(2,3) by (intro nth_equalityI) simp_all
  have "sum_list (map (\<lambda>a. Linear_numel (fc_x a) + Linear_numel (fc_neib a)) (agg_layers m)) =
        sum_list (map (\<lambda>k. 2 * (spec_output_dim (specs ! k)
                                   * (if k = 0 then input_dim else 2 * spec_output_dim (specs ! (k - 1)))))
                    [0..<length specs])"
    unfolding al by (simp add: comp_def Linear_numel_init mult_2)
  then show ?thesis by (simp add: num_parameters_def f(4) Linear_numel_init)
qed


lemma clip_grad_norm_explicit:
  "clip_grad_norm n mx g =
   (\<lambda>i. if mx / (sqrt (sum_list (map (\<lambda>i. (g i)\<^sup>2) [0..<n])) + 1 / 10 ^ 6) < 1
        then g i * (mx / (sqrt (sum_list (map (\<lambda>i. (g i)\<^sup>2) [0..<n])) + 1 / 10 ^ 6))
        else g i)"
  by (rule ext) (simp add: clip_grad_norm_def total_norm_def Let_def)

lemma multilabel_soft_margin_loss_explicit:
  assumes "shape0 preds * shape1 preds = shape0 labels * shape1 labels"
  shows "multilabel_soft_margin_loss preds labels =
         Inr (- sum_list (map (\<lambda>i. data labels ! i * ln (1 / (1 + exp (- (data preds ! i))))
                                   + (1 - data labels ! i)
                                     * ln (1 - 1 / (1 + exp (- (data preds ! i)))))
                        [0..<shape0 preds * shape1 preds])
              / real (shape0 preds * shape1 preds))"
  using assms by (simp add: multilabel_soft_margin_loss_def sigmoid_def)

lemma train_step_drops_old_gradients:
  "train_step differentiate optimizer_step (st\<lparr>grad := g0\<rparr>) ids features adj labels s =
   train_step differentiate optimizer_step st ids features adj labels s"
  by (simp add: train_step_def zero_grad_def)

section \<open>The aggregator\<close>

text \<open>
  C3.  On a batch \<open>x\<close> of \<open>N\<close> rows and a neighbour batch of \<open>N * n\<close> rows of the same
  width \<open>D_in\<close>, the forward function of an aggregator returns the activation of the
  combination of \<open>fc_x x\<close> and \<open>fc_neib\<close> of the pooled batch.  The pooled batch is the
  elementwise mean over each group of \<open>n\<close> consecutive neighbour rows: its entry
  \<open>(i, j)\<close> is the sum of the entries \<open>(i * n + s, j)\<close>, \<open>s < n\<close>, of the neighbour
  batch, divided by \<open>n\<close>.  Both projections are matrix products with the
  \<open>D_out \<times> D_in\<close> weights and add no bias; the default combine function puts the two
  projected batches side by side, \<open>2 * D_out\<close> columns.  An activation \<open>f\<close> is applied
  to every entry of the combination; without an activation the combination is returned
  as it is.  With the default combine function the entry \<open>(i, j)\<close> of the result is
  therefore the activation of row \<open>i\<close> of \<open>x\<close> times row \<open>j\<close> of the first weight for
  \<open>j < D_out\<close>, and of row \<open>i\<close> of the pooled batch times row \<open>j - D_out\<close> of the
  second weight otherwise.  The batches are not empty (\<open>N\<close>, \<open>n\<close> and \<open>D_in\<close> are
  positive).
\<close>

theorem MeanAggregator_forward_mean_pooling:
  assumes "wf_tensor neibs"
    and "shape0 x = N" "shape1 x = D_in" "shape0 neibs = N * n" "shape1 neibs = D_in"
    and "0 < N" "0 < n" "0 < D_in"
  shows "let agg = MeanAggregator_init k D_in D_out act comb wx wn;
             x_emb = tabulate2 N D_out (\<lambda>i c. dot D_in (at2 x i) (wx c));
             neib_emb = tabulate2 N D_out (\<lambda>i c. dot D_in (at2 (pooled N n neibs) i) (wn c))
         in Linear_forward (fc_x agg) x = Inr x_emb
          \<and> Linear_forward (fc_neib agg) (pooled N n neibs) = Inr neib_emb
          \<and> MeanAggregator_forward agg x neibs =
              (case comb [x_emb, neib_emb] of
                 Inl e \<Rightarrow> Inl e
               | Inr out \<Rightarrow> Inr (case act of None \<Rightarrow> out | Some f \<Rightarrow> map_tensor f out))
          \<and> (act = None \<longrightarrow> MeanAggregator_forward agg x neibs = comb [x_emb, neib_emb])
          \<and> (\<forall>out f. comb [x_emb, neib_emb] = Inr out \<and> act = Some f \<longrightarrow>
                MeanAggregator_forward agg x neibs =
                  Inr \<lparr>shape0 = shape0 out, shape1 = shape1 out, data = map f (data out)\<rparr>)
          \<and> cat_dim1 [x_emb, neib_emb] =
              Inr (tabulate2 N (2 * D_out)
                    (\<lambda>i j. if j < D_out then at2 x_emb i j else at2 neib_emb i (j - D_out)))
          \<and> (\<forall>i j. i < N \<and> j < D_in \<longrightarrow>
                at2 (pooled N n neibs) i j =
                  sum_list (map (\<lambda>s. at2 neibs (i * n + s) j) [0..<n]) / real n)
          \<and> (comb = cat_dim1 \<longrightarrow>
                MeanAggregator_forward agg x neibs =
                  Inr (tabulate2 N (2 * D_out)
                        (\<lambda>i j. (case act of None \<Rightarrow> (\<lambda>v. v) | Some f \<Rightarrow> f)
                           (if j < D_out
                            then sum_list (map (\<lambda>c. at2 x i c * wx j c) [0..<D_in])
                            else sum_list (map (\<lambda>c. at2 (pooled N n neibs) i c * wn (j - D_out) c)
                                            [0..<D_in])))))"
proof -
  define agg where "agg = MeanAggregator_init k D_in D_out act comb wx wn"
  define x_emb where "x_emb = tabulate2 N D_out (\<lambda>i c. dot D_in (at2 x i) (wx c))"
  define neib_emb where
    "neib_emb = tabulate2 N D_out (\<lambda>i c. dot D_in (at2 (pooled N n neibs) i) (wn c))"
  have base: "Linear_forward (fc_x agg) x = Inr x_emb
          \<and> Linear_forward (fc_neib agg) (pooled N n neibs) = Inr neib_emb
          \<and> MeanAggregator_forward agg x neibs =
              (case comb [x_emb, neib_emb] of
                 Inl e \<Rightarrow> Inl e
               | Inr out \<Rightarrow> Inr (case act of None \<Rightarrow> out | Some f \<Rightarrow> map_tensor f out))
          \<and> (act = None \<longrightarrow> MeanAggregator_forward agg x neibs = comb [x_emb, neib_emb])
          \<and> cat_dim1 [x_emb, neib_emb] =
              Inr (tabulate2 N (2 * D_out)
                    (\<lambda>i j. if j < D_out then at2 x_emb i j else at2 neib_emb i (j - D_out)))"
    using MeanAggregator_forward_combined [OF assms, of k D_out act comb wx wn]
    unfolding Let_def agg_def x_emb_def neib_emb_def .
  then have fwd: "MeanAggregator_forward agg x neibs =
              (case comb [x_emb, neib_emb] of
                 Inl e \<Rightarrow> Inl e
               | Inr out \<Rightarrow> Inr (case act of None \<Rightarrow> out | Some f \<Rightarrow> map_tensor f out))"
    and cat: "cat_dim1 [x_emb, neib_emb] =
              Inr (tabulate2 N (2 * D_out)
                    (\<lambda>i j. if j < D_out then at2 x_emb i j else at2 neib_emb i (j - D_out)))"
    by blast+
  have some: "\<forall>out f. comb [x_emb, neib_emb] = Inr out \<and> act = Some f \<longrightarrow>
                MeanAggregator_forward agg x neibs =
                  Inr \<lparr>shape0 = shape0 out, shape1 = shape1 out, data = map f (data out)\<rparr>"
    using fwd by (auto simp: map_tensor_record)
  have pool: "\<forall>i j. i < N \<and> j < D_in \<longrightarrow>
                at2 (pooled N n neibs) i j =
                  sum_list (map (\<lambda>s. at2 neibs (i * n + s) j) [0..<n]) / real n"
    using at2_pooled [OF assms(1,4)] assms(5) by simp
  have entries: "tabulate2 N (2 * D_out)
                   (\<lambda>i j. if j < D_out then at2 x_emb i j else at2 neib_emb i (j - D_out)) =
                 tabulate2 N (2 * D_out)
                   (\<lambda>i j. if j < D_out
                          then sum_list (map (\<lambda>c. at2 x i c * wx j c) [0..<D_in])
                          else sum_list (map (\<lambda>c. at2 (pooled N n neibs) i c * wn (j - D_out) c)
                                          [0..<D_in]))"
    by (rule tabulate2_cong) (auto simp: x_emb_def neib_emb_def dot_def)
  have explicit: "comb = cat_dim1 \<longrightarrow>
                MeanAggregator_forward agg x neibs =
                  Inr (tabulate2 N (2 * D_out)
                        (\<lambda>i j. (case act of None \<Rightarrow> (\<lambda>v. v) | Some f \<Rightarrow> f)
                           (if j < D_out
                            then sum_list (map (\<lambda>c. at2 x i c * wx j c) [0..<D_in])
                            else sum_list (map (\<lambda>c. at2 (pooled N n neibs) i c * wn (j - D_out) c)
                                            [0..<D_in]))))"
  proof
    assume c: "comb = cat_dim1"
    show "MeanAggregator_forward agg x neibs =
                  Inr (tabulate2 N (2 * D_out)
                        (\<lambda>i j. (case act of None \<Rightarrow> (\<lambda>v. v) | Some f \<Rightarrow> f)
                           (if j < D_out
                            then sum_list (map (\<lambda>c. at2 x i c * wx j c) [0..<D_in])
                            else sum_list (map (\<lambda>c. at2 (pooled N n neibs) i c * wn (j - D_out) c)
                                            [0..<D_in]))))"
    proof (cases act)
      case None
      then show ?thesis using fwd cat c entries by simp
    next
      case (Some f)
      then show ?thesis using fwd cat c entries by (simp add: map_tensor_tabulate2)
    qed
  qed
  show ?thesis
    using base some pool explicit
    unfolding Let_def agg_def [symmetric] x_emb_def [symmetric] neib_emb_def [symmetric]
    by blast
qed

theorem MeanAggregator_forward_mean_pooling_witness:
  "wf_tensor \<lparr>shape0 = 2, shape1 = 1, data = [2, 4]\<rparr> \<and>
   MeanAggregator_forward (MeanAggregator_init 0 1 1 (Some relu) cat_dim1 (\<lambda>k c. 2) (\<lambda>k c. - 1))
     \<lparr>shape0 = 1, shape1 = 1, data = [3]\<rparr> \<lparr>shape0 = 2, shape1 = 1, data = [2, 4]\<rparr>
   = Inr \<lparr>shape0 = 1, shape1 = 2, data = [6, 0]\<rparr> \<and>
   MeanAggregator_forward (MeanAggregator_init 0 1 1 None cat_dim1 (\<lambda>k c. 2) (\<lambda>k c. - 1))
     \<lparr>shape0 = 1, shape1 = 1, data = [3]\<rparr> \<lparr>shape0 = 2, shape1 = 1, data = [2, 4]\<rparr>
   = Inr \<lparr>shape0 = 1, shape1 = 2, data = [6, - 3]\<rparr>"
proof -
  have wf: "wf_tensor \<lparr>shape0 = 2, shape1 = 1, data = [2, 4]\<rparr>"
    by (simp add: wf_tensor_def)
  have run: "MeanAggregator_forward (MeanAggregator_init 0 1 1 act cat_dim1 (\<lambda>k c. 2) (\<lambda>k c. - 1))
       \<lparr>shape0 = 1, shape1 = 1, data = [3]\<rparr> \<lparr>shape0 = 2, shape1 = 1, data = [2, 4]\<rparr> =
     Inr (tabulate2 1 (2 * 1)
            (\<lambda>i j. (case act of None \<Rightarrow> (\<lambda>v. v) | Some f \<Rightarrow> f)
               (if j < 1
                then sum_list (map (\<lambda>c. at2 \<lparr>shape0 = 1, shape1 = 1, data = [3]\<rparr> i c * 2) [0..<1])
                else sum_list (map (\<lambda>c. at2 (pooled 1 2 \<lparr>shape0 = 2, shape1 = 1, data = [2, 4]\<rparr>) i c
                                          * (- 1)) [0..<1]))))" for act
  proof -
    have "let agg = MeanAggregator_init 0 1 1 act cat_dim1 (\<lambda>k c. 2) (\<lambda>k c. - 1);
             x_emb = tabulate2 1 1 (\<lambda>i c. dot 1 (at2 \<lparr>shape0 = 1, shape1 = 1, data = [3]\<rparr> i) (\<lambda>c. 2));
             neib_emb = tabulate2 1 1
               (\<lambda>i c. dot 1 (at2 (pooled 1 2 \<lparr>shape0 = 2, shape1 = 1, data = [2, 4]\<rparr>) i) (\<lambda>c. - 1))
         in Linear_forward (fc_x agg) \<lparr>shape0 = 1, shape1 = 1, data = [3]\<rparr> = Inr x_emb
          \<and> Linear_forward (fc_neib agg) (pooled 1 2 \<lparr>shape0 = 2, shape1 = 1, data = [2, 4]\<rparr>) = Inr neib_emb
          \<and> MeanAggregator_forward agg \<lparr>shape0 = 1, shape1 = 1, data = [3]\<rparr>
                \<lparr>shape0 = 2, shape1 = 1, data = [2, 4]\<rparr> =
              (case cat_dim1 [x_emb, neib_emb] of
                 Inl e \<Rightarrow> Inl e
               | Inr out \<Rightarrow> Inr (case act of None \<Rightarrow> out | Some f \<Rightarrow> map_tensor f out))
          \<and> (act = None \<longrightarrow> MeanAggregator_forward agg \<lparr>shape0 = 1, shape1 = 1, data = [3]\<rparr>
                \<lparr>shape0 = 2, shape1 = 1, data = [2, 4]\<rparr> = cat_dim1 [x_emb, neib_emb])
          \<and> (\<forall>out f. cat_dim1 [x_emb, neib_emb] = Inr out \<and> act = Some f \<longrightarrow>
                MeanAggregator_forward agg \<lparr>shape0 = 1, shape1 = 1, data = [3]\<rparr>
                \<lparr>shape0 = 2, shape1 = 1, data = [2, 4]\<rparr> =
                  Inr \<lparr>shape0 = shape0 out, shape1 = shape1 out, data = map f (data out)\<rparr>)
          \<and> cat_dim1 [x_emb, neib_emb] =
              Inr (tabulate2 1 (2 * 1)
                    (\<lambda>i j. if j < 1 then at2 x_emb i j else at2 neib_emb i (j - 1)))
          \<and> (\<forall>i j. i < 1 \<and> j < 1 \<longrightarrow>
                at2 (pooled 1 2 \<lparr>shape0 = 2, shape1 = 1, data = [2, 4]\<rparr>) i j =
                  sum_list (map (\<lambda>s. at2 \<lparr>shape0 = 2, shape1 = 1, data = [2, 4]\<rparr> (i * 2 + s) j) [0..<2]) / real 2)
          \<and> (cat_dim1 = cat_dim1 \<longrightarrow>
                MeanAggregator_forward agg \<lparr>shape0 = 1, shape1 = 1, data = [3]\<rparr>
                \<lparr>shape0 = 2, shape1 = 1, data = [2, 4]\<rparr> =
                  Inr (tabulate2 1 (2 * 1)
                        (\<lambda>i j. (case act of None \<Rightarrow> (\<lambda>v. v) | Some f \<Rightarrow> f)
                           (if j < 1
                            then sum_list (map (\<lambda>c. at2 \<lparr>shape0 = 1, shape1 = 1, data = [3]\<rparr> i c * 2) [0..<1])
                            else sum_list (map (\<lambda>c. at2 (pooled 1 2 \<lparr>shape0 = 2, shape1 = 1, data = [2, 4]\<rparr>) i c * (- 1))
                                            [0..<1])))))"
      by (rule MeanAggregator_forward_mean_pooling) (simp_all add: wf_tensor_def)
    then show ?thesis unfolding Let_def by blast
  qed
  have "MeanAggregator_forward (MeanAggregator_init 0 1 1 (Some relu) cat_dim1 (\<lambda>k c. 2) (\<lambda>k c. - 1))
     \<lparr>shape0 = 1, shape1 = 1, data = [3]\<rparr> \<lparr>shape0 = 2, shape1 = 1, data = [2, 4]\<rparr>
   = Inr \<lparr>shape0 = 1, shape1 = 2, data = [6, 0]\<rparr>"
    using run [of "Some relu"]
    by (simp add: tabulate2_def pooled_def group_rows_def mean_vectors_def row_def at2_def
        relu_def upt_rec)
  moreover have "MeanAggregator_forward (MeanAggregator_init 0 1 1 None cat_dim1 (\<lambda>k c. 2) (\<lambda>k c. - 1))
     \<lparr>shape0 = 1, shape1 = 1, data = [3]\<rparr> \<lparr>shape0 = 2, shape1 = 1, data = [2, 4]\<rparr>
   = Inr \<lparr>shape0 = 1, shape1 = 2, data = [6, - 3]\<rparr>"
    using run [of None]
    by (simp add: tabulate2_def pooled_def group_rows_def mean_vectors_def row_def at2_def
        upt_rec)
  ultimately show ?thesis using wf by blast
qed

text \<open>
  C5 (amended).  A call of the aggregator whose neighbour batch does not have a multiple
  of the rows of \<open>x\<close> ends in an exception: the reshape itself is refused.  When \<open>x\<close>
  has at least one row, the features have at least one column and the neighbour rows are
  a multiple, the reshape succeeds, keeps every entry of the neighbour batch (\<open>N\<close> groups
  of \<open>rows div N\<close> rows, nothing cut off or added), and the call raises no reshape
  error; with inputs of the widths the aggregator was built for it returns a batch of
  \<open>N\<close> rows.
\<close>

theorem MeanAggregator_forward_row_multiple:
  "(\<not> shape0 x dvd shape0 neibs \<longrightarrow>
      (\<exists>e. MeanAggregator_forward agg x neibs = Inl e) \<and>
      (view3 neibs (shape0 x) (shape1 neibs) = Inl ViewShapeInvalid \<or>
       view3 neibs (shape0 x) (shape1 neibs) = Inl ViewAmbiguous)) \<and>
   (shape0 x dvd shape0 neibs \<and> 0 < shape0 x \<and> 0 < shape1 neibs \<longrightarrow>
      view3 neibs (shape0 x) (shape1 neibs) =
        Inr \<lparr>dim0 = shape0 x, dim1 = shape0 neibs div shape0 x, dim2 = shape1 neibs,
             data3 = data neibs\<rparr> \<and>
      shape0 x * (shape0 neibs div shape0 x) = shape0 neibs \<and>
      (combine_fn agg = cat_dim1 \<longrightarrow>
         MeanAggregator_forward agg x neibs \<noteq> Inl ViewShapeInvalid \<and>
         MeanAggregator_forward agg x neibs \<noteq> Inl ViewAmbiguous \<and>
         (shape1 x = in_features (fc_x agg) \<and> shape1 neibs = in_features (fc_neib agg) \<longrightarrow>
            (\<exists>out. MeanAggregator_forward agg x neibs = Inr out \<and> shape0 out = shape0 x))))"
proof (intro conjI impI)
  assume nd: "\<not> shape0 x dvd shape0 neibs"
  then show v: "view3 neibs (shape0 x) (shape1 neibs) = Inl ViewShapeInvalid \<or>
       view3 neibs (shape0 x) (shape1 neibs) = Inl ViewAmbiguous"
    by (rule view3_not_multiple)
  then show "\<exists>e. MeanAggregator_forward agg x neibs = Inl e"
    by (cases "Linear_forward (fc_x agg) x") (auto simp: MeanAggregator_forward_def)
next
  assume a: "shape0 x dvd shape0 neibs \<and> 0 < shape0 x \<and> 0 < shape1 neibs"
  then show v: "view3 neibs (shape0 x) (shape1 neibs) =
        Inr \<lparr>dim0 = shape0 x, dim1 = shape0 neibs div shape0 x, dim2 = shape1 neibs,
             data3 = data neibs\<rparr>"
    by (intro view3_multiple) simp_all
  show "shape0 x * (shape0 neibs div shape0 x) = shape0 neibs" using a by simp
  assume c: "combine_fn agg = cat_dim1"
  show "MeanAggregator_forward agg x neibs \<noteq> Inl ViewShapeInvalid"
    using MeanAggregator_forward_Inl [OF _ c, of x neibs ViewShapeInvalid] v by auto
  show "MeanAggregator_forward agg x neibs \<noteq> Inl ViewAmbiguous"
    using MeanAggregator_forward_Inl [OF _ c, of x neibs ViewAmbiguous] v by auto
  assume w: "shape1 x = in_features (fc_x agg) \<and> shape1 neibs = in_features (fc_neib agg)"
  then obtain out where out: "MeanAggregator_forward agg x neibs = Inr out"
    using MeanAggregator_forward_succeeds [OF v _ _ c] by blast
  then show "\<exists>out. MeanAggregator_forward agg x neibs = Inr out \<and> shape0 out = shape0 x"
    using MeanAggregator_forward_Inr [OF out c] by simp
qed

theorem MeanAggregator_forward_row_multiple_witness:
  "\<not> (2::nat) dvd 3 \<and>
   MeanAggregator_forward (MeanAggregator_init 0 1 1 None cat_dim1 (\<lambda>k c. 2) (\<lambda>k c. 1))
     \<lparr>shape0 = 2, shape1 = 1, data = [3, 1]\<rparr> \<lparr>shape0 = 3, shape1 = 1, data = [2, 4, 6]\<rparr>
     = Inl ViewShapeInvalid \<and>
   (1::nat) dvd 2 \<and>
   (\<exists>out. MeanAggregator_forward (MeanAggregator_init 0 1 1 None cat_dim1 (\<lambda>k c. 2) (\<lambda>k c. 1))
     \<lparr>shape0 = 1, shape1 = 1, data = [3]\<rparr> \<lparr>shape0 = 2, shape1 = 1, data = [2, 4]\<rparr> = Inr out
     \<and> shape0 out = 1)"
  using MeanAggregator_forward_row_multiple
    [of "\<lparr>shape0 = 2, shape1 = 1, data = [3, 1]\<rparr>" "\<lparr>shape0 = 3, shape1 = 1, data = [2, 4, 6]\<rparr>"
        "MeanAggregator_init 0 1 1 None cat_dim1 (\<lambda>k c. 2) (\<lambda>k c. 1)"]
    MeanAggregator_forward_row_multiple
    [of "\<lparr>shape0 = 1, shape1 = 1, data = [3]\<rparr>" "\<lparr>shape0 = 2, shape1 = 1, data = [2, 4]\<rparr>"
        "MeanAggregator_init 0 1 1 None cat_dim1 (\<lambda>k c. 2) (\<lambda>k c. 1)"]
  by (simp add: MeanAggregator_forward_def Linear_forward_def view3_def Let_def)

text \<open>
  C5 as first stated also promises that the reshape succeeds whenever the neighbour rows
  are a multiple.  On an empty batch it does not: zero rows are a multiple of zero rows,
  and the library refuses to infer the group size.
\<close>

theorem reshape_of_empty_batch_counterexample:
  "shape0 (zeros 0 2) dvd shape0 (zeros 0 2) \<and>
   view3 (zeros 0 2) (shape0 (zeros 0 2)) (shape1 (zeros 0 2)) = Inl ViewAmbiguous \<and>
   MeanAggregator_forward (MeanAggregator_init 0 2 1 None cat_dim1 (\<lambda>k c. 1) (\<lambda>k c. 1))
     (zeros 0 2) (zeros 0 2) = Inl ViewAmbiguous"
  by (simp add: zeros_def MeanAggregator_forward_def Linear_forward_def view3_def Let_def)

text \<open>
  C9.  With one sample per node (the neighbour batch has as many rows as \<open>x\<close>, and the
  batch is not empty) the reshape makes groups of one row, the mean over each group is
  the row itself, the pooled batch is the neighbour batch, and so the aggregator returns
  the activation of the combination of \<open>fc_x x\<close> and \<open>fc_neib neibs\<close>.
\<close>

theorem mean_pooling_single_sample:
  assumes "wf_tensor neibs" "shape0 neibs = shape0 x" "0 < shape0 x" "0 < shape1 neibs"
  shows "view3 neibs (shape0 x) (shape1 neibs) =
           Inr \<lparr>dim0 = shape0 x, dim1 = 1, dim2 = shape1 neibs, data3 = data neibs\<rparr>
       \<and> mean_dim1 \<lparr>dim0 = shape0 x, dim1 = 1, dim2 = shape1 neibs, data3 = data neibs\<rparr> = neibs
       \<and> pooled (shape0 x) 1 neibs = neibs
       \<and> MeanAggregator_forward agg x neibs =
           (case Linear_forward (fc_x agg) x of
              Inl e \<Rightarrow> Inl e
            | Inr x_emb \<Rightarrow>
                (case Linear_forward (fc_neib agg) neibs of
                   Inl e \<Rightarrow> Inl e
                 | Inr neib_emb \<Rightarrow>
                     (case combine_fn agg [x_emb, neib_emb] of
                        Inl e \<Rightarrow> Inl e
                      | Inr out \<Rightarrow>
                          Inr (case activation agg of None \<Rightarrow> out | Some f \<Rightarrow> map_tensor f out))))"
proof -
  have v: "view3 neibs (shape0 x) (shape1 neibs) =
           Inr \<lparr>dim0 = shape0 x, dim1 = 1, dim2 = shape1 neibs, data3 = data neibs\<rparr>"
    using assms(2-4) by (intro view3_groups) simp_all
  have m: "mean_dim1 \<lparr>dim0 = shape0 x, dim1 = 1, dim2 = shape1 neibs, data3 = data neibs\<rparr> = neibs"
    using mean_dim1_single [OF assms(1)] assms(2) by simp
  have p: "pooled (shape0 x) 1 neibs = neibs"
    using mean_dim1_eq_pooled [of neibs "shape0 x" 1] assms(1,2) m by simp
  have "MeanAggregator_forward agg x neibs =
     (case Linear_forward (fc_x agg) x of
        Inl e \<Rightarrow> Inl e
      | Inr x_emb \<Rightarrow>
          (case Linear_forward (fc_neib agg) (pooled (shape0 x) 1 neibs) of
             Inl e \<Rightarrow> Inl e
           | Inr neib_emb \<Rightarrow>
               (case combine_fn agg [x_emb, neib_emb] of
                  Inl e \<Rightarrow> Inl e
                | Inr out \<Rightarrow>
                    Inr (case activation agg of None \<Rightarrow> out | Some f \<Rightarrow> map_tensor f out))))"
    using assms by (intro MeanAggregator_forward_pooled) simp_all
  then have "MeanAggregator_forward agg x neibs =
     (case Linear_forward (fc_x agg) x of
        Inl e \<Rightarrow> Inl e
      | Inr x_emb \<Rightarrow>
          (case Linear_forward (fc_neib agg) neibs of
             Inl e \<Rightarrow> Inl e
           | Inr neib_emb \<Rightarrow>
               (case combine_fn agg [x_emb, neib_emb] of
                  Inl e \<Rightarrow> Inl e
                | Inr out \<Rightarrow>
                    Inr (case activation agg of None \<Rightarrow> out | Some f \<Rightarrow> map_tensor f out))))"
    by (simp only: p)
  then show ?thesis using v m p by blast
qed

theorem mean_pooling_single_sample_witness:
  "wf_tensor \<lparr>shape0 = 1, shape1 = 1, data = [5]\<rparr> \<and>
   MeanAggregator_forward (MeanAggregator_init 0 1 1 (Some relu) cat_dim1 (\<lambda>k c. 2) (\<lambda>k c. - 1))
     \<lparr>shape0 = 1, shape1 = 1, data = [3]\<rparr> \<lparr>shape0 = 1, shape1 = 1, data = [5]\<rparr>
   = Inr \<lparr>shape0 = 1, shape1 = 2, data = [6, 0]\<rparr>"
  using mean_pooling_single_sample
    [of "\<lparr>shape0 = 1, shape1 = 1, data = [5]\<rparr>" "\<lparr>shape0 = 1, shape1 = 1, data = [3]\<rparr>"
        "MeanAggregator_init 0 1 1 (Some relu) cat_dim1 (\<lambda>k c. 2) (\<lambda>k c. - 1)"]
  by (simp add: tabulate2_def dot_def row_def at2_def Linear_forward_def Linear_init_def
      MeanAggregator_init_def map_tensor_def relu_def
      cat_dim1_def wf_tensor_def Let_def upt_rec)

section \<open>The model\<close>

text \<open>
  C4.  The property \<open>output_dim\<close> of an aggregator is the width of what its combine
  function makes of two rows of the nominal width; with concatenation that is twice the
  nominal width.  The constructor of the model always succeeds, and it wires this
  computed width, not the nominal \<open>output_dim\<close> of the layer spec, into the next layer
  and into the final projection \<open>fc\<close>: layer \<open>k > 0\<close> reads
  \<open>2 * output_dim\<close> of spec \<open>k - 1\<close>, layer 0 reads \<open>input_dim\<close>, and \<open>fc\<close> reads
  \<open>2 * output_dim\<close> of the last spec (\<open>input_dim\<close> when there is no layer).
\<close>

theorem effective_output_width_wiring:
  "(\<forall>agg t. combine_fn agg [zeros 1 (output_dim' agg), zeros 1 (output_dim' agg)] = Inr t \<longrightarrow>
       MeanAggregator_output_dim agg = Inr (shape1 t)) \<and>
   MeanAggregator_output_dim (MeanAggregator_init i d_in d_out act cat_dim1 wx wn) = Inr (2 * d_out) \<and>
   (\<exists>m. GSSupervised_init input_dim num_classes layer_specs lr wd iv = Inr m \<and>
      length (agg_layers m) = length layer_specs \<and>
      (\<forall>k<length layer_specs.
         output_dim' (agg_layers m ! k) = spec_output_dim (layer_specs ! k) \<and>
         MeanAggregator_output_dim (agg_layers m ! k) = Inr (2 * spec_output_dim (layer_specs ! k)) \<and>
         in_features (fc_x (agg_layers m ! k)) =
           (if k = 0 then input_dim else 2 * spec_output_dim (layer_specs ! (k - 1))) \<and>
         in_features (fc_neib (agg_layers m ! k)) =
           (if k = 0 then input_dim else 2 * spec_output_dim (layer_specs ! (k - 1)))) \<and>
      in_features (fc m) =
        (if layer_specs = [] then input_dim else 2 * spec_output_dim (last layer_specs)))"
proof (intro conjI)
  show "\<forall>agg t. combine_fn agg [zeros 1 (output_dim' agg), zeros 1 (output_dim' agg)] = Inr t \<longrightarrow>
       MeanAggregator_output_dim agg = Inr (shape1 t)"
    by (simp add: MeanAggregator_output_dim_def)
  show "MeanAggregator_output_dim (MeanAggregator_init i d_in d_out act cat_dim1 wx wn) = Inr (2 * d_out)"
    by (rule MeanAggregator_output_dim_cat)
  obtain m where m: "GSSupervised_init input_dim num_classes layer_specs lr wd iv = Inr m"
    using GSSupervised_init_result [of input_dim num_classes layer_specs lr wd iv] by blast
  note f = GSSupervised_init_fields [OF m]
  have "\<forall>k<length layer_specs.
         output_dim' (agg_layers m ! k) = spec_output_dim (layer_specs ! k) \<and>
         MeanAggregator_output_dim (agg_layers m ! k) = Inr (2 * spec_output_dim (layer_specs ! k)) \<and>
         in_features (fc_x (agg_layers m ! k)) =
           (if k = 0 then input_dim else 2 * spec_output_dim (layer_specs ! (k - 1))) \<and>
         in_features (fc_neib (agg_layers m ! k)) =
           (if k = 0 then input_dim else 2 * spec_output_dim (layer_specs ! (k - 1)))"
    by (simp add: f(3) MeanAggregator_output_dim_cat)
  moreover have "in_features (fc m) =
        (if layer_specs = [] then input_dim else 2 * spec_output_dim (last layer_specs))"
    by (simp add: f(4))
  ultimately show "\<exists>m. GSSupervised_init input_dim num_classes layer_specs lr wd iv = Inr m \<and>
      length (agg_layers m) = length layer_specs \<and>
      (\<forall>k<length layer_specs.
         output_dim' (agg_layers m ! k) = spec_output_dim (layer_specs ! k) \<and>
         MeanAggregator_output_dim (agg_layers m ! k) = Inr (2 * spec_output_dim (layer_specs ! k)) \<and>
         in_features (fc_x (agg_layers m ! k)) =
           (if k = 0 then input_dim else 2 * spec_output_dim (layer_specs ! (k - 1))) \<and>
         in_features (fc_neib (agg_layers m ! k)) =
           (if k = 0 then input_dim else 2 * spec_output_dim (layer_specs ! (k - 1)))) \<and>
      in_features (fc m) =
        (if layer_specs = [] then input_dim else 2 * spec_output_dim (last layer_specs))"
    using m f(2) by blast
qed

theorem effective_output_width_wiring_witness:
  "\<exists>m. GSSupervised_init 8 3 [example_spec 2 4, example_spec 2 5] (1 / 100) 0 example_init = Inr m \<and>
       output_dim' (agg_layers m ! 0) = 4 \<and>
       MeanAggregator_output_dim (agg_layers m ! 0) = Inr 8 \<and>
       in_features (fc_x (agg_layers m ! 0)) = 8 \<and>
       in_features (fc_x (agg_layers m ! 1)) = 8 \<and>
       MeanAggregator_output_dim (agg_layers m ! 1) = Inr 10 \<and>
       in_features (fc m) = 10"
  using effective_output_width_wiring
    [of 0 0 0 None "\<lambda>k c. 0" "\<lambda>k c. 0" 8 3 "[example_spec 2 4, example_spec 2 5]" "1 / 100" 0 example_init]
  by (auto simp: example_spec_def)

text \<open>
  C6.  A model built from no layer spec has no sampler and no aggregator.  Its forward
  pass calls no sampler (the outside world \<open>s\<close> is returned as it was), and the result
  is \<open>fc\<close>, the projection \<open>input_dim \<rightarrow> num_classes\<close> with bias, applied to the
  row-normalised \<open>features[ids]\<close>; it is the same for every adjacency structure.  Entry
  by entry: logit \<open>k\<close> of the \<open>i\<close>-th id is the bias \<open>k\<close> plus the sum over the
  features \<open>c\<close> of weight \<open>(k, c)\<close> times feature \<open>c\<close> of the node, the feature divided
  by the Euclidean norm of the node's feature row (by \<open>1e-12\<close> if the norm is smaller).
  Every row that is normalised this way and whose norm is not below \<open>1e-12\<close> has norm
  one.
\<close>

theorem forward_without_layers:
  "\<exists>m. GSSupervised_init input_dim num_classes [] lr wd iv = Inr m \<and>
       sampler_fns m = [] \<and> children m = [] \<and>
       fc m = Linear_init input_dim num_classes (init_fc_weight iv) (Some (init_fc_bias iv)) \<and>
       (\<forall>ids features adj s.
          GSSupervised_forward m ids features adj s =
            (case index_rows features ids of
               Inl e \<Rightarrow> Inl e
             | Inr t \<Rightarrow> Linear_forward (fc m) (normalize t), s)) \<and>
       (\<forall>ids features adj adj' s.
          GSSupervised_forward m ids features adj s = GSSupervised_forward m ids features adj' s) \<and>
       (\<forall>ids features adj s.
          wf_tensor features \<and> list_all (\<lambda>i. i < shape0 features) ids \<and>
          shape1 features = input_dim \<longrightarrow>
          GSSupervised_forward m ids features adj s =
            (Inr (tabulate2 (length ids) num_classes
               (\<lambda>i k. sum_list (map (\<lambda>c.
                    at2 features (ids ! i) c
                      / max (sqrt (sum_list (map (\<lambda>c'. (at2 features (ids ! i) c')\<^sup>2)
                                              [0..<input_dim])))
                            (1 / 10 ^ 12)
                    * init_fc_weight iv k c) [0..<input_dim]) + init_fc_bias iv k)), s)) \<and>
       (\<forall>t i. wf_tensor t \<and> i < shape0 t \<and>
          1 / 10 ^ 12 \<le> sqrt (sum_list (map (\<lambda>c. (at2 t i c)\<^sup>2) [0..<shape1 t])) \<longrightarrow>
          sqrt (sum_list (map (\<lambda>c. (at2 (normalize t) i c)\<^sup>2) [0..<shape1 t])) = 1)"
proof -
  define m :: "('a, 'b) GSSupervised" where
    "m = \<lparr>sampler_fns = [], agg_layers = [],
          fc = Linear_init input_dim num_classes (init_fc_weight iv) (Some (init_fc_bias iv)),
          learning_rate = lr, weight_decay = wd\<rparr>"
  have fwd: "GSSupervised_forward m ids features adj s =
            (case index_rows features ids of
               Inl e \<Rightarrow> Inl e
             | Inr t \<Rightarrow> Linear_forward (fc m) (normalize t), s)" for ids features adj s
    by (cases "index_rows features ids")
      (simp_all add: m_def GSSupervised_forward_def GSSupervised_sample_def children_def)
  have init: "GSSupervised_init input_dim num_classes [] lr wd iv = Inr m"
    by (simp add: m_def GSSupervised_init_no_layers)
  have fields: "sampler_fns m = []" "children m = []"
    "fc m = Linear_init input_dim num_classes (init_fc_weight iv) (Some (init_fc_bias iv))"
    by (simp_all add: m_def children_def)
  have entries: "GSSupervised_forward m ids features adj s =
            (Inr (tabulate2 (length ids) num_classes
               (\<lambda>i k. sum_list (map (\<lambda>c.
                    at2 features (ids ! i) c
                      / max (sqrt (sum_list (map (\<lambda>c'. (at2 features (ids ! i) c')\<^sup>2)
                                              [0..<input_dim])))
                            (1 / 10 ^ 12)
                    * init_fc_weight iv k c) [0..<input_dim]) + init_fc_bias iv k)), s)"
    if "wf_tensor features \<and> list_all (\<lambda>i. i < shape0 features) ids \<and> shape1 features = input_dim"
    for ids features adj s
    using forward_without_layers_entries [OF fwd fields(3)] that by blast
  have unit: "sqrt (sum_list (map (\<lambda>c. (at2 (normalize t) i c)\<^sup>2) [0..<shape1 t])) = 1"
    if "wf_tensor t \<and> i < shape0 t \<and>
          1 / 10 ^ 12 \<le> sqrt (sum_list (map (\<lambda>c. (at2 t i c)\<^sup>2) [0..<shape1 t]))" for t i
    using normalize_unit_rows that by blast
  show ?thesis
    using init fields fwd entries unit by (intro exI [of _ m]) simp
qed

theorem forward_without_layers_witness:
  "\<exists>m. GSSupervised_init 2 1 [] 0 0
          \<lparr>init_fc_x = (\<lambda>l k c. 0), init_fc_neib = (\<lambda>l k c. 0),
           init_fc_weight = (\<lambda>k c. if c = 0 then 5 else 10), init_fc_bias = (\<lambda>k. 3)\<rparr> = Inr m \<and>
       GSSupervised_forward m [0] \<lparr>shape0 = 1, shape1 = 2, data = [3, 4]\<rparr> triangle_adj () =
         (Inr \<lparr>shape0 = 1, shape1 = 1, data = [14]\<rparr>, ())"
proof -
  define iv where "iv = \<lparr>init_fc_x = (\<lambda>l k c. 0 :: real), init_fc_neib = (\<lambda>l k c. 0 :: real),
           init_fc_weight = (\<lambda>k c. if c = 0 then 5 else 10 :: real), init_fc_bias = (\<lambda>k. 3 :: real)\<rparr>"
  from forward_without_layers [of 2 1 0 0 iv, where ?'a = "nat \<Rightarrow> nat list" and ?'b = unit]
  obtain m :: "(nat \<Rightarrow> nat list, unit) GSSupervised" where
    m: "GSSupervised_init 2 1 [] 0 0 iv = Inr m" and
    entries: "\<forall>ids features adj s.
          wf_tensor features \<and> list_all (\<lambda>i. i < shape0 features) ids \<and>
          shape1 features = 2 \<longrightarrow>
          GSSupervised_forward m ids features adj s =
            (Inr (tabulate2 (length ids) 1
               (\<lambda>i k. sum_list (map (\<lambda>c.
                    at2 features (ids ! i) c
                      / max (sqrt (sum_list (map (\<lambda>c'. (at2 features (ids ! i) c')\<^sup>2)
                                              [0..<2])))
                            (1 / 10 ^ 12)
                    * init_fc_weight iv k c) [0..<2]) + init_fc_bias iv k)), s)"
    by blast
  have sq: "sqrt 25 = 5" by (rule real_sqrt_unique) simp_all
  have "GSSupervised_forward m [0] \<lparr>shape0 = 1, shape1 = 2, data = [3, 4]\<rparr> triangle_adj () =
            (Inr (tabulate2 (length [0::nat]) 1
               (\<lambda>i k. sum_list (map (\<lambda>c.
                    at2 \<lparr>shape0 = 1, shape1 = 2, data = [3, 4]\<rparr> ([0] ! i) c
                      / max (sqrt (sum_list (map (\<lambda>c'. (at2 \<lparr>shape0 = 1, shape1 = 2, data = [3, 4]\<rparr> ([0] ! i) c')\<^sup>2)
                                              [0..<2])))
                            (1 / 10 ^ 12)
                    * init_fc_weight iv k c) [0..<2]) + init_fc_bias iv k)), ())"
    using entries by (simp add: wf_tensor_def)
  then have "GSSupervised_forward m [0] \<lparr>shape0 = 1, shape1 = 2, data = [3, 4]\<rparr> triangle_adj () =
         (Inr \<lparr>shape0 = 1, shape1 = 1, data = [14]\<rparr>, ())"
    by (simp add: tabulate2_def at2_def iv_def upt_rec sq)
  then show ?thesis using m unfolding iv_def by blast
qed

text \<open>
  C1.  For a model built from \<open>L\<close> layer specs and any batch of ids: when the sampling
  phase returns, the list of levels has \<open>L + 1\<close> elements; after \<open>j\<close> rounds of the
  reduction \<open>L + 1 - j\<close> levels are left, each round that returns makes the list one
  shorter, and after all \<open>L\<close> rounds one level is left.  The forward pass therefore
  never ends in the assertion error.
\<close>

theorem feature_level_list_length:
  assumes "GSSupervised_init input_dim num_classes layer_specs lr wd iv = Inr m"
  shows "length (children m) = length layer_specs \<and>
    (\<forall>af s'. GSSupervised_sample m ids features adj s = (Inr af, s') \<longrightarrow>
        length af = length layer_specs + 1 \<and>
        (\<forall>j af_j. j \<le> length layer_specs \<and> reduce_layers (take j (children m)) af = Inr af_j \<longrightarrow>
            length af_j = length layer_specs + 1 - j) \<and>
        (\<forall>j af_j af'. j < length layer_specs \<and> reduce_layers (take j (children m)) af = Inr af_j \<and>
            apply_layer (children m ! j) af_j = Inr af' \<longrightarrow> length af' + 1 = length af_j) \<and>
        (\<forall>af'. reduce_layers (children m) af = Inr af' \<longrightarrow> length af' = 1)) \<and>
    fst (GSSupervised_forward m ids features adj s) \<noteq> Inl AssertionError"
proof -
  note f = GSSupervised_init_fields [OF assms]
  have ch: "children m = agg_layers m" by (rule children_init [OF assms])
  have len_ch: "length (children m) = length layer_specs" using ch f(2) by simp
  have sampled: "length af = length layer_specs + 1"
    if "GSSupervised_sample m ids features adj s = (Inr af, s')" for af s'
    using GSSupervised_sample_Inr(1) [OF that] f(1) by simp
  have after: "length af_j = length layer_specs + 1 - j"
    if "GSSupervised_sample m ids features adj s = (Inr af, s')" "j \<le> length layer_specs"
      "reduce_layers (take j (children m)) af = Inr af_j" for af s' j af_j
    using reduce_layers_length [OF that(3)] sampled [OF that(1)] that(2) len_ch by simp
  have round: "length af' + 1 = length af_j"
    if "GSSupervised_sample m ids features adj s = (Inr af, s')" "j < length layer_specs"
      "reduce_layers (take j (children m)) af = Inr af_j"
      "apply_layer (children m ! j) af_j = Inr af'" for af s' j af_j af'
  proof -
    have "length af_j = length layer_specs + 1 - j"
      using after [OF that(1) _ that(3)] that(2) by simp
    then show ?thesis using apply_layer_Inr(1) [OF that(4)] that(2) by simp
  qed
  have final: "length af' = 1"
    if "GSSupervised_sample m ids features adj s = (Inr af, s')"
      "reduce_layers (children m) af = Inr af'" for af s' af'
    using after [OF that(1), of "length layer_specs" af'] that(2) len_ch by simp
  have no_assert: "fst (GSSupervised_forward m ids features adj s) \<noteq> Inl AssertionError"
  proof
    assume a: "fst (GSSupervised_forward m ids features adj s) = Inl AssertionError"
    then obtain s' where "GSSupervised_forward m ids features adj s = (Inl AssertionError, s')"
      by (cases "GSSupervised_forward m ids features adj s") simp
    from GSSupervised_forward_Inl [OF this]
    consider "GSSupervised_sample m ids features adj s = (Inl AssertionError, s')"
      | af where "GSSupervised_sample m ids features adj s = (Inr af, s')"
          "reduce_layers (children m) af = Inl AssertionError"
      | af af' where "GSSupervised_sample m ids features adj s = (Inr af, s')"
          "reduce_layers (children m) af = Inr af'" "length af' \<noteq> 1"
      by auto
    then show False
    proof cases
      case 1
      from GSSupervised_sample_Inl [OF this] show False by simp
    next
      case 2
      have "\<And>a. a \<in> set (children m) \<Longrightarrow> combine_fn a = cat_dim1"
        using agg_layers_combine_fn [OF assms] ch by simp
      from reduce_layers_error [OF 2(2) this] show False by simp
    next
      case 3
      then show False using final by blast
    qed
  qed
  show ?thesis using len_ch sampled after round final no_assert by blast
qed

theorem feature_level_list_length_witness:
  "GSSupervised_init 2 1 [example_spec 2 1, example_spec 1 2] 0 0 example_init = Inr example_model \<and>
   GSSupervised_sample example_model [0] triangle_features triangle_adj () = (Inr example_levels, ()) \<and>
   length example_levels = 3 \<and>
   reduce_layers (take 1 (children example_model)) example_levels =
     Inr [\<lparr>shape0 = 1, shape1 = 2, data = [1, 3]\<rparr>, \<lparr>shape0 = 2, shape1 = 2, data = [1, 4, 2, 2]\<rparr>] \<and>
   reduce_layers (children example_model) example_levels =
     Inr [\<lparr>shape0 = 1, shape1 = 4, data = [4, 4, 9, 9]\<rparr>] \<and>
   fst (GSSupervised_forward example_model [0] triangle_features triangle_adj ()) \<noteq> Inl AssertionError"
proof -
  have r1: "reduce_layers (take 1 (children example_model)) example_levels =
     Inr [\<lparr>shape0 = 1, shape1 = 2, data = [1, 3]\<rparr>, \<lparr>shape0 = 2, shape1 = 2, data = [1, 4, 2, 2]\<rparr>]"
    using example_round1 example_children by simp
  have r2: "reduce_layers (children example_model) example_levels =
     Inr [\<lparr>shape0 = 1, shape1 = 4, data = [4, 4, 9, 9]\<rparr>]"
    using example_round1 example_round2 example_children by simp
  have "length example_levels = 3" by (simp add: example_levels_def)
  moreover have
    "fst (GSSupervised_forward example_model [0] triangle_features triangle_adj ()) \<noteq> Inl AssertionError"
    using feature_level_list_length [OF example_model_init, of "[0]" triangle_features triangle_adj "()"]
    by blast
  ultimately show ?thesis using example_model_init example_sample r1 r2 by blast
qed

text \<open>
  C2.  The reduction visits the aggregators in the order of the stack: the children of
  the container are \<open>agg_layers\<close> themselves, round \<open>j + 1\<close> applies \<open>agg_layers[j]\<close>
  to the result of the first \<open>j\<close> rounds, so \<open>agg_layers[0]\<close> makes the first round.
  A round applies its one aggregator to every adjacent pair \<open>(level[k], level[k+1])\<close>
  of the current list and returns a list one shorter; it fails if one of these calls
  fails.  The forward pass is this reduction followed by normalisation and \<open>fc\<close>.
\<close>

theorem reduction_in_stack_order:
  assumes "GSSupervised_init input_dim num_classes layer_specs lr wd iv = Inr m"
  shows "children m = agg_layers m \<and> length (agg_layers m) = length layer_specs \<and>
    (\<forall>j af. j < length layer_specs \<longrightarrow>
        reduce_layers (take (Suc j) (children m)) af =
          (case reduce_layers (take j (children m)) af of
             Inl e \<Rightarrow> Inl e
           | Inr af_j \<Rightarrow> apply_layer (agg_layers m ! j) af_j)) \<and>
    (\<forall>af. layer_specs \<noteq> [] \<longrightarrow>
        reduce_layers (children m) af =
          (case apply_layer (agg_layers m ! 0) af of
             Inl e \<Rightarrow> Inl e
           | Inr af1 \<Rightarrow> reduce_layers (tl (agg_layers m)) af1)) \<and>
    (\<forall>a af af'. apply_layer a af = Inr af' \<longrightarrow>
        length af' = length af - 1 \<and>
        (\<forall>k<length af - 1. MeanAggregator_forward a (af ! k) (af ! (k + 1)) = Inr (af' ! k))) \<and>
    (\<forall>a af e. apply_layer a af = Inl e \<longrightarrow>
        (\<exists>k<length af - 1. MeanAggregator_forward a (af ! k) (af ! (k + 1)) = Inl e)) \<and>
    (\<forall>ids features adj s af s'. GSSupervised_sample m ids features adj s = (Inr af, s') \<longrightarrow>
        GSSupervised_forward m ids features adj s =
          (case reduce_layers (agg_layers m) af of
             Inl e \<Rightarrow> (Inl e, s')
           | Inr af' \<Rightarrow> (Linear_forward (fc m) (normalize (af' ! 0)), s')))"
proof -
  note f = GSSupervised_init_fields [OF assms]
  have ch: "children m = agg_layers m" by (rule children_init [OF assms])
  have order: "reduce_layers (take (Suc j) (children m)) af =
          (case reduce_layers (take j (children m)) af of
             Inl e \<Rightarrow> Inl e
           | Inr af_j \<Rightarrow> apply_layer (agg_layers m ! j) af_j)"
    if "j < length layer_specs" for j af
    using reduce_layers_take_Suc [of j "agg_layers m" af] that f(2) ch by simp
  have first: "reduce_layers (children m) af =
          (case apply_layer (agg_layers m ! 0) af of
             Inl e \<Rightarrow> Inl e
           | Inr af1 \<Rightarrow> reduce_layers (tl (agg_layers m)) af1)"
    if "layer_specs \<noteq> []" for af
  proof -
    from that f(2) obtain a as where "agg_layers m = a # as" by (cases "agg_layers m") auto
    then show ?thesis using ch by (cases "apply_layer a af") simp_all
  qed
  have pairs: "length af' = length af - 1 \<and>
        (\<forall>k<length af - 1. MeanAggregator_forward a (af ! k) (af ! (k + 1)) = Inr (af' ! k))"
    if "apply_layer a af = Inr af'" for a af af'
    using apply_layer_Inr [OF that] by simp
  have fails: "\<exists>k<length af - 1. MeanAggregator_forward a (af ! k) (af ! (k + 1)) = Inl e"
    if "apply_layer a af = Inl e" for a af e
    using apply_layer_Inl [OF that] .
  have fwd: "GSSupervised_forward m ids features adj s =
          (case reduce_layers (agg_layers m) af of
             Inl e \<Rightarrow> (Inl e, s')
           | Inr af' \<Rightarrow> (Linear_forward (fc m) (normalize (af' ! 0)), s'))"
    if "GSSupervised_sample m ids features adj s = (Inr af, s')" for ids features adj s af s'
  proof (cases "reduce_layers (agg_layers m) af")
    case (Inl e)
    then show ?thesis using that ch by (simp add: GSSupervised_forward_def)
  next
    case (Inr af')
    have "length af' = length af - length (agg_layers m)"
      using reduce_layers_length [OF Inr] .
    then have "length af' = 1"
      using GSSupervised_sample_Inr(1) [OF that] f(1,2) by simp
    then show ?thesis using that ch Inr by (simp add: GSSupervised_forward_def)
  qed
  show ?thesis using ch f(2) order first pairs fails fwd by blast
qed

theorem reduction_in_stack_order_witness:
  "GSSupervised_init 2 1 [example_spec 2 1, example_spec 1 2] 0 0 example_init = Inr example_model \<and>
   children example_model = agg_layers example_model \<and>
   reduce_layers (children example_model) example_levels =
     (case apply_layer (agg_layers example_model ! 0) example_levels of
        Inl e \<Rightarrow> Inl e
      | Inr af1 \<Rightarrow> reduce_layers (tl (agg_layers example_model)) af1) \<and>
   apply_layer (agg_layers example_model ! 0) example_levels =
     Inr [\<lparr>shape0 = 1, shape1 = 2, data = [1, 3]\<rparr>, \<lparr>shape0 = 2, shape1 = 2, data = [1, 4, 2, 2]\<rparr>] \<and>
   MeanAggregator_forward (agg_layers example_model ! 0) (example_levels ! 0) (example_levels ! 1) =
     Inr \<lparr>shape0 = 1, shape1 = 2, data = [1, 3]\<rparr> \<and>
   MeanAggregator_forward (agg_layers example_model ! 0) (example_levels ! 1) (example_levels ! 2) =
     Inr \<lparr>shape0 = 2, shape1 = 2, data = [1, 4, 2, 2]\<rparr>"
proof -
  have r1: "apply_layer (agg_layers example_model ! 0) example_levels =
     Inr [\<lparr>shape0 = 1, shape1 = 2, data = [1, 3]\<rparr>, \<lparr>shape0 = 2, shape1 = 2, data = [1, 4, 2, 2]\<rparr>]"
    using example_round1 by (simp add: example_model_def)
  have len: "length example_levels = 3" by (simp add: example_levels_def)
  note t = reduction_in_stack_order [OF example_model_init]
  have ch: "children example_model = agg_layers example_model"
    using t by blast
  have "\<forall>af. [example_spec 2 1, example_spec 1 2] \<noteq> [] \<longrightarrow>
        reduce_layers (children example_model) af =
          (case apply_layer (agg_layers example_model ! 0) af of
             Inl e \<Rightarrow> Inl e
           | Inr af1 \<Rightarrow> reduce_layers (tl (agg_layers example_model)) af1)"
    using t by blast
  then have first: "reduce_layers (children example_model) example_levels =
     (case apply_layer (agg_layers example_model ! 0) example_levels of
        Inl e \<Rightarrow> Inl e
      | Inr af1 \<Rightarrow> reduce_layers (tl (agg_layers example_model)) af1)"
    by blast
  have "\<forall>a af af'. apply_layer a af = Inr af' \<longrightarrow>
        length af' = length af - 1 \<and>
        (\<forall>k<length af - 1. MeanAggregator_forward a (af ! k) (af ! (k + 1)) = Inr (af' ! k))"
    using t by blast
  then have pairs: "\<And>k. k < length example_levels - 1 \<Longrightarrow>
       MeanAggregator_forward (agg_layers example_model ! 0) (example_levels ! k) (example_levels ! (k + 1)) =
       Inr ([\<lparr>shape0 = 1, shape1 = 2, data = [1, 3]\<rparr>, \<lparr>shape0 = 2, shape1 = 2, data = [1, 4, 2, 2]\<rparr>] ! k)"
    using r1 by blast
  have "MeanAggregator_forward (agg_layers example_model ! 0) (example_levels ! 0) (example_levels ! 1) =
     Inr \<lparr>shape0 = 1, shape1 = 2, data = [1, 3]\<rparr>"
    using pairs [of 0] len by simp
  moreover have "MeanAggregator_forward (agg_layers example_model ! 0) (example_levels ! 1) (example_levels ! 2) =
     Inr \<lparr>shape0 = 2, shape1 = 2, data = [1, 4, 2, 2]\<rparr>"
    using pairs [of 1] len by (simp add: numeral_2_eq_2)
  ultimately show ?thesis using example_model_init ch first r1 by blast
qed

text \<open>
  C8 (amended).  The aggregator built from the first layer spec is the first child of the
  container and makes the first round of the reduction, on the raw features of all the
  levels.  The last round is made by the aggregator built from the last layer spec.
\<close>

theorem first_spec_aggregator_applied_first:
  assumes "GSSupervised_init input_dim num_classes layer_specs lr wd iv = Inr m"
    and "layer_specs \<noteq> []"
  shows "hd (children m) =
           MeanAggregator_init 0 input_dim (spec_output_dim (layer_specs ! 0))
             (spec_activation (layer_specs ! 0)) cat_dim1 (init_fc_x iv 0) (init_fc_neib iv 0) \<and>
         (\<forall>af. reduce_layers (children m) af =
                 (case apply_layer (hd (children m)) af of
                    Inl e \<Rightarrow> Inl e
                  | Inr af1 \<Rightarrow> reduce_layers (tl (children m)) af1)) \<and>
         last (children m) =
           MeanAggregator_init (length layer_specs - 1)
             (if length layer_specs = 1 then input_dim
              else 2 * spec_output_dim (layer_specs ! (length layer_specs - 2)))
             (spec_output_dim (last layer_specs)) (spec_activation (last layer_specs)) cat_dim1
             (init_fc_x iv (length layer_specs - 1)) (init_fc_neib iv (length layer_specs - 1)) \<and>
         (\<forall>af. reduce_layers (children m) af =
                 (case reduce_layers (butlast (children m)) af of
                    Inl e \<Rightarrow> Inl e
                  | Inr af' \<Rightarrow> apply_layer (last (children m)) af'))"
proof -
  note f = GSSupervised_init_fields [OF assms(1)]
  have ch: "children m = agg_layers m" by (rule children_init [OF assms(1)])
  have ne: "children m \<noteq> []" using ch f(2) assms(2) by auto
  have pos: "0 < length layer_specs" using assms(2) by simp
  have "hd (children m) = agg_layers m ! 0" using ne ch by (simp add: hd_conv_nth)
  then have first: "hd (children m) =
           MeanAggregator_init 0 input_dim (spec_output_dim (layer_specs ! 0))
             (spec_activation (layer_specs ! 0)) cat_dim1 (init_fc_x iv 0) (init_fc_neib iv 0)"
    using f(3) [OF pos] by simp
  have unfold_first: "reduce_layers (children m) af =
                 (case apply_layer (hd (children m)) af of
                    Inl e \<Rightarrow> Inl e
                  | Inr af1 \<Rightarrow> reduce_layers (tl (children m)) af1)" for af
    using ne by (cases "children m") (simp_all split: sum.splits)
  have "last (children m) = agg_layers m ! (length layer_specs - 1)"
    using ne ch f(2) by (simp add: last_conv_nth)
  also have "\<dots> = MeanAggregator_init (length layer_specs - 1)
             (if length layer_specs - 1 = 0 then input_dim
              else 2 * spec_output_dim (layer_specs ! (length layer_specs - 1 - 1)))
             (spec_output_dim (layer_specs ! (length layer_specs - 1)))
             (spec_activation (layer_specs ! (length layer_specs - 1))) cat_dim1
             (init_fc_x iv (length layer_specs - 1)) (init_fc_neib iv (length layer_specs - 1))"
    using pos by (intro f(3)) simp
  also have "\<dots> = MeanAggregator_init (length layer_specs - 1)
             (if length layer_specs = 1 then input_dim
              else 2 * spec_output_dim (layer_specs ! (length layer_specs - 2)))
             (spec_output_dim (last layer_specs)) (spec_activation (last layer_specs)) cat_dim1
             (init_fc_x iv (length layer_specs - 1)) (init_fc_neib iv (length layer_specs - 1))"
  proof -
    have "layer_specs ! (length layer_specs - 1) = last layer_specs"
      using assms(2) by (simp add: last_conv_nth)
    moreover have "(length layer_specs - 1 = 0) = (length layer_specs = 1)" using pos by arith
    moreover have "length layer_specs - 1 - 1 = length layer_specs - 2" by simp
    ultimately show ?thesis by (simp only:)
  qed
  finally have lst: "last (children m) =
           MeanAggregator_init (length layer_specs - 1)
             (if length layer_specs = 1 then input_dim
              else 2 * spec_output_dim (layer_specs ! (length layer_specs - 2)))
             (spec_output_dim (last layer_specs)) (spec_activation (last layer_specs)) cat_dim1
             (init_fc_x iv (length layer_specs - 1)) (init_fc_neib iv (length layer_specs - 1))" .
  have unfold_last: "reduce_layers (children m) af =
                 (case reduce_layers (butlast (children m)) af of
                    Inl e \<Rightarrow> Inl e
                  | Inr af' \<Rightarrow> apply_layer (last (children m)) af')" for af
  proof -
    have "children m = butlast (children m) @ [last (children m)]" using ne by simp
    then have "reduce_layers (children m) af =
               reduce_layers (butlast (children m) @ [last (children m)]) af" by simp
    then show ?thesis by (simp only: reduce_layers_snoc)
  qed
  show ?thesis using first unfold_first lst unfold_last by blast
qed

theorem first_spec_aggregator_applied_first_witness:
  "GSSupervised_init 2 1 [example_spec 2 1, example_spec 1 2] 0 0 example_init = Inr example_model \<and>
   [example_spec 2 1, example_spec 1 2] \<noteq> [] \<and>
   hd (children example_model) =
     MeanAggregator_init 0 2 (spec_output_dim (example_spec 2 1)) (Some relu) cat_dim1
       (\<lambda>k c. 1) (\<lambda>k c. 2) \<and>
   last (children example_model) =
     MeanAggregator_init 1 2 (spec_output_dim (example_spec 1 2)) (Some relu) cat_dim1
       (\<lambda>k c. 1) (\<lambda>k c. 2) \<and>
   reduce_layers (children example_model) example_levels =
     Inr [\<lparr>shape0 = 1, shape1 = 4, data = [4, 4, 9, 9]\<rparr>]"
proof -
  have ne: "[example_spec 2 1, example_spec 1 2] \<noteq> []" by simp
  note t = first_spec_aggregator_applied_first [OF example_model_init ne]
  have "hd (children example_model) =
     MeanAggregator_init 0 2 (spec_output_dim (example_spec 2 1)) (Some relu) cat_dim1
       (\<lambda>k c. 1) (\<lambda>k c. 2)"
    using t by (simp add: example_spec_def example_init_def)
  moreover have "last (children example_model) =
     MeanAggregator_init 1 2 (spec_output_dim (example_spec 1 2)) (Some relu) cat_dim1
       (\<lambda>k c. 1) (\<lambda>k c. 2)"
    using t by (simp add: example_spec_def example_init_def)
  moreover have "reduce_layers (children example_model) example_levels =
     Inr [\<lparr>shape0 = 1, shape1 = 4, data = [4, 4, 9, 9]\<rparr>]"
    using example_round1 example_round2 example_children by simp
  ultimately show ?thesis using example_model_init ne by blast
qed

text \<open>
  C8 as first stated has the aggregator of \<open>layer_specs[0]\<close> applied last.  In the
  two-layer example the last round is made by the second aggregator (object 1, built from
  \<open>layer_specs[1]\<close>), and a reduction that applied the first aggregator last would stop
  with a size mismatch where the forward pass returns a batch.
\<close>

theorem first_spec_aggregator_applied_last_counterexample:
  "GSSupervised_init 2 1 [example_spec 2 1, example_spec 1 2] 0 0 example_init = Inr example_model \<and>
   agg_layers example_model ! 0 =
     MeanAggregator_init 0 2 (spec_output_dim ([example_spec 2 1, example_spec 1 2] ! 0))
       (spec_activation ([example_spec 2 1, example_spec 1 2] ! 0)) cat_dim1 (\<lambda>k c. 1) (\<lambda>k c. 2) \<and>
   oid (agg_layers example_model ! 0) = 0 \<and>
   oid (last (children example_model)) = 1 \<and>
   output_dim' (last (children example_model)) = spec_output_dim ([example_spec 2 1, example_spec 1 2] ! 1) \<and>
   reduce_layers (children example_model) example_levels =
     Inr [\<lparr>shape0 = 1, shape1 = 4, data = [4, 4, 9, 9]\<rparr>] \<and>
   (case reduce_layers (tl (children example_model)) example_levels of
      Inl e \<Rightarrow> Inl e
    | Inr af' \<Rightarrow> apply_layer (agg_layers example_model ! 0) af') = Inl LinearSizeMismatch"
proof -
  have a0: "agg_layers example_model ! 0 =
     MeanAggregator_init 0 2 (spec_output_dim ([example_spec 2 1, example_spec 1 2] ! 0))
       (spec_activation ([example_spec 2 1, example_spec 1 2] ! 0)) cat_dim1 (\<lambda>k c. 1) (\<lambda>k c. 2)"
    by (simp add: example_model_def example_spec_def)
  have ids: "oid (agg_layers example_model ! 0) = 0" "oid (last (children example_model)) = 1"
    "output_dim' (last (children example_model)) = spec_output_dim ([example_spec 2 1, example_spec 1 2] ! 1)"
    using example_children by (simp_all add: example_model_def example_spec_def)
  have fwd: "reduce_layers (children example_model) example_levels =
     Inr [\<lparr>shape0 = 1, shape1 = 4, data = [4, 4, 9, 9]\<rparr>]"
    using example_round1 example_round2 example_children by simp
  have "agg_layers example_model ! 0 =
        MeanAggregator_init 0 2 1 (Some relu) cat_dim1 (\<lambda>k c. 1) (\<lambda>k c. 2)"
    by (simp add: example_model_def)
  then have swapped: "(case reduce_layers (tl (children example_model)) example_levels of
      Inl e \<Rightarrow> Inl e
    | Inr af' \<Rightarrow> apply_layer (agg_layers example_model ! 0) af') = Inl LinearSizeMismatch"
    using example_round1_swapped example_round2_swapped example_children by simp
  show ?thesis using example_model_init a0 ids fwd swapped by blast
qed

text \<open>
  C10.  Let every sampler of the layer specs return \<open>len(ids) * n_samples\<close> ids whenever
  it returns.  Then after the sampling phase level \<open>k\<close> has
  \<open>|ids| * n\<^sub>1 * \<dots> * n\<^sub>k\<close> rows.  In every round of the reduction, whatever the number
  \<open>j\<close> of rounds made before, each adjacent pair of levels has the row counts in the
  ratio \<open>n\<^bsub>k+1\<^esub>\<close>, so the rows of the left level divide the rows of the right one
  and the call of the aggregator on the pair does not end in the shape error of the
  reshape.  The forward pass as a whole never ends in that error.
\<close>

theorem row_counts_and_no_shape_mismatch:
  assumes "GSSupervised_init input_dim num_classes layer_specs lr wd iv = Inr m"
    and "\<forall>spec\<in>set layer_specs. \<forall>ids adj s r s'.
           sample_fn spec ids adj (n_samples spec) s = (Inr r, s') \<longrightarrow>
           length r = length ids * n_samples spec"
  shows "(\<forall>af s'. GSSupervised_sample m ids features adj s = (Inr af, s') \<longrightarrow>
            (\<forall>k\<le>length layer_specs.
               shape0 (af ! k) = length ids * prod_list (map n_samples (take k layer_specs))) \<and>
            (\<forall>j af_j k. reduce_layers (take j (children m)) af = Inr af_j \<and>
                 k + j < length layer_specs \<longrightarrow>
               shape0 (af_j ! (k + 1)) = shape0 (af_j ! k) * n_samples (layer_specs ! k) \<and>
               shape0 (af_j ! k) dvd shape0 (af_j ! (k + 1)) \<and>
               MeanAggregator_forward (children m ! j) (af_j ! k) (af_j ! (k + 1))
                 \<noteq> Inl ViewShapeInvalid)) \<and>
         fst (GSSupervised_forward m ids features adj s) \<noteq> Inl ViewShapeInvalid"
proof -
  note init = assms(1)
  have contract: "\<And>spec ids adj s r s'. spec \<in> set layer_specs \<Longrightarrow>
             sample_fn spec ids adj (n_samples spec) s = (Inr r, s') \<Longrightarrow>
             length r = length ids * n_samples spec"
    using assms(2) by blast
  have ch: "children m = agg_layers m" by (rule children_init [OF init])
  have len_ch: "length (children m) = length layer_specs"
    using ch GSSupervised_init_fields(2) [OF init] by simp
  have sampled: "shape0 (af ! k) = length ids * prod_list (map n_samples (take k layer_specs))"
    if "GSSupervised_sample m ids features adj s = (Inr af, s')" "k \<le> length layer_specs"
    for af s' k
    using init contract that by (rule sampled_rows)
  have pair: "shape0 (af_j ! (k + 1)) = shape0 (af_j ! k) * n_samples (layer_specs ! k) \<and>
               shape0 (af_j ! k) dvd shape0 (af_j ! (k + 1)) \<and>
               MeanAggregator_forward (children m ! j) (af_j ! k) (af_j ! (k + 1))
                 \<noteq> Inl ViewShapeInvalid"
    if sample: "GSSupervised_sample m ids features adj s = (Inr af, s')"
      and rounds: "reduce_layers (take j (children m)) af = Inr af_j"
      and k: "k + j < length layer_specs"
    for af s' j af_j k
  proof -
    have k0: "k + j \<le> length layer_specs" and k1: "k + 1 + j \<le> length layer_specs"
      using k by simp_all
    have a: "shape0 (af_j ! k) = length ids * prod_list (map n_samples (take k layer_specs))"
      using init contract sample rounds k0 by (rule levels_rows_after_rounds)
    have b: "shape0 (af_j ! (k + 1)) =
             length ids * prod_list (map n_samples (take (k + 1) layer_specs))"
      using init contract sample rounds k1 by (rule levels_rows_after_rounds)
    have "take (k + 1) layer_specs = take k layer_specs @ [layer_specs ! k]"
      using k by (simp add: take_Suc_conv_app_nth)
    then have ratio: "shape0 (af_j ! (k + 1)) = shape0 (af_j ! k) * n_samples (layer_specs ! k)"
      using a b by simp
    then have dvd: "shape0 (af_j ! k) dvd shape0 (af_j ! (k + 1))" by simp
    have "children m ! j \<in> set (agg_layers m)"
      using k ch len_ch by (simp add: nth_mem)
    then have cat: "combine_fn (children m ! j) = cat_dim1"
      by (rule agg_layers_combine_fn [OF init])
    have "MeanAggregator_forward (children m ! j) (af_j ! k) (af_j ! (k + 1)) \<noteq> Inl ViewShapeInvalid"
      using MeanAggregator_forward_Inl [OF _ cat, of "af_j ! k" "af_j ! (k + 1)" ViewShapeInvalid]
        view3_never_invalid_on_multiple [OF dvd] by auto
    then show ?thesis using ratio dvd by simp
  qed
  have no_mismatch: "fst (GSSupervised_forward m ids features adj s) \<noteq> Inl ViewShapeInvalid"
  proof
    assume "fst (GSSupervised_forward m ids features adj s) = Inl ViewShapeInvalid"
    then obtain s' where "GSSupervised_forward m ids features adj s = (Inl ViewShapeInvalid, s')"
      by (cases "GSSupervised_forward m ids features adj s") simp
    from GSSupervised_forward_Inl [OF this]
    consider "GSSupervised_sample m ids features adj s = (Inl ViewShapeInvalid, s')"
      | af where "GSSupervised_sample m ids features adj s = (Inr af, s')"
          "reduce_layers (children m) af = Inl ViewShapeInvalid"
      by auto
    then show False
    proof cases
      case 1
      from GSSupervised_sample_Inl [OF this] show False by simp
    next
      case 2
      from reduce_layers_Inl [OF 2(2)] obtain j af_j where
        j: "j < length (children m)" and
        rounds: "reduce_layers (take j (children m)) af = Inr af_j" and
        fails: "apply_layer (children m ! j) af_j = Inl ViewShapeInvalid"
        by blast
      from apply_layer_Inl [OF fails] obtain k where
        k: "k < length af_j - 1" and
        call: "MeanAggregator_forward (children m ! j) (af_j ! k) (af_j ! (k + 1)) = Inl ViewShapeInvalid"
        by blast
      have "length af = length layer_specs + 1"
        using GSSupervised_sample_Inr(1) [OF 2(1)] GSSupervised_init_fields(1) [OF init] by simp
      then have "length af_j = length layer_specs + 1 - j"
        using reduce_layers_length [OF rounds] j by simp
      then have "k + j < length layer_specs" using k by simp
      from pair [OF 2(1) rounds this] call show False by simp
    qed
  qed
  show ?thesis using sampled pair no_mismatch by blast
qed

theorem row_counts_and_no_shape_mismatch_witness:
  "GSSupervised_init 2 1 [example_spec 2 1, example_spec 1 2] 0 0 example_init = Inr example_model \<and>
   GSSupervised_sample example_model [0] triangle_features triangle_adj () = (Inr example_levels, ()) \<and>
   shape0 (example_levels ! 0) = 1 \<and> shape0 (example_levels ! 1) = 1 * 2 \<and>
   shape0 (example_levels ! 2) = 1 * 2 * 1 \<and>
   fst (GSSupervised_forward example_model [0] triangle_features triangle_adj ()) \<noteq> Inl ViewShapeInvalid"
proof -
  have contract: "\<forall>spec\<in>set [example_spec 2 1, example_spec 1 2]. \<forall>ids adj s r s'.
           sample_fn spec ids adj (n_samples spec) s = (Inr r, s') \<longrightarrow>
           length r = length ids * n_samples spec"
    by (auto simp: example_spec_def dest: round_robin_sampler_length)
  note t = row_counts_and_no_shape_mismatch
    [OF example_model_init contract, of "[0]" triangle_features triangle_adj "()"]
  have "fst (GSSupervised_forward example_model [0] triangle_features triangle_adj ()) \<noteq> Inl ViewShapeInvalid"
    using t by blast
  moreover have "\<forall>k\<le>length [example_spec 2 1, example_spec 1 2].
      shape0 (example_levels ! k) =
      length [0::nat] * prod_list (map n_samples (take k [example_spec 2 1, example_spec 1 2]))"
    using t example_sample by blast
  then have "shape0 (example_levels ! 0) = 1 \<and> shape0 (example_levels ! 1) = 1 * 2 \<and>
   shape0 (example_levels ! 2) = 1 * 2 * 1"
    by (simp add: example_levels_def)
  ultimately show ?thesis using example_model_init example_sample by blast
qed

section \<open>One step of training\<close>

text \<open>
  C7.  A training step resets the gradient buffers, runs one forward pass, computes the
  multi-label loss of the logits (the mean over all entries of the binary cross-entropy
  of the sigmoid of the logit against the label), lets the gradient of this loss with
  respect to the parameters be added to the just emptied buffers, scales the buffers to a
  global norm of at most 5, and makes one step of the optimizer from the parameters and
  the optimizer state it started with.  So, when the forward pass and the loss succeed:
  the step returns the logits of the forward pass with the parameters before the update
  and the loss as a number; the buffers hold the gradient of this batch alone, multiplied
  by \<open>5 / (norm + 1e-6)\<close> when that is below one; their norm over all the parameters is
  at most 5; and the optimizer has read exactly these buffers.  When the forward pass or
  the loss raises, the buffers have been reset and neither the parameters nor the
  optimizer have changed.  What the buffers held before the step never matters.  The
  parameters counted for the norm are the two weights of every aggregator and the weight
  and bias of \<open>fc\<close>.
\<close>

theorem train_step_sequence:
  fixes st :: "('adj, 's, 'o) training"
  shows
  "(\<forall>preds s'.
      GSSupervised_forward (net st) ids features adj s = (Inr preds, s') \<and>
      shape0 preds * shape1 preds = shape0 labels * shape1 labels \<longrightarrow>
      (let loss = - sum_list (map (\<lambda>i. data labels ! i * ln (1 / (1 + exp (- (data preds ! i))))
                                       + (1 - data labels ! i)
                                         * ln (1 - 1 / (1 + exp (- (data preds ! i)))))
                            [0..<shape0 preds * shape1 preds])
                  / real (shape0 preds * shape1 preds);
           g = differentiate (\<lambda>m'. batch_loss m' ids features adj labels s) (net st);
           t = sqrt (sum_list (map (\<lambda>i. (g i)\<^sup>2) [0..<num_parameters (net st)]));
           clipped = (\<lambda>i. if 5 / (t + 1 / 10 ^ 6) < 1 then g i * (5 / (t + 1 / 10 ^ 6)) else g i);
           stepped = optimizer_step (optimizer_state st) (net st) clipped
       in train_step differentiate optimizer_step st ids features adj labels s =
            ((Inr (preds, loss), s'),
             \<lparr>net = snd stepped, grad = clipped, optimizer_state = fst stepped\<rparr>) \<and>
          batch_loss (net st) ids features adj labels s = loss \<and>
          sqrt (sum_list (map (\<lambda>i. (clipped i)\<^sup>2) [0..<num_parameters (net st)])) \<le> 5)) \<and>
   (\<forall>preds s'.
      GSSupervised_forward (net st) ids features adj s = (Inr preds, s') \<and>
      shape0 preds * shape1 preds \<noteq> shape0 labels * shape1 labels \<longrightarrow>
      train_step differentiate optimizer_step st ids features adj labels s =
        ((Inl ValueError, s'), st\<lparr>grad := (\<lambda>i. 0)\<rparr>)) \<and>
   (\<forall>e s'.
      GSSupervised_forward (net st) ids features adj s = (Inl e, s') \<longrightarrow>
      train_step differentiate optimizer_step st ids features adj labels s =
        ((Inl e, s'), st\<lparr>grad := (\<lambda>i. 0)\<rparr>)) \<and>
   (\<forall>g0. train_step differentiate optimizer_step (st\<lparr>grad := g0\<rparr>) ids features adj labels s =
         train_step differentiate optimizer_step st ids features adj labels s) \<and>
   (\<forall>input_dim num_classes specs lr wd iv.
      GSSupervised_init input_dim num_classes specs lr wd iv = Inr (net st) \<longrightarrow>
      num_parameters (net st) =
        sum_list (map (\<lambda>k. 2 * (spec_output_dim (specs ! k)
                                  * (if k = 0 then input_dim else 2 * spec_output_dim (specs ! (k - 1)))))
                   [0..<length specs])
        + num_classes * (if specs = [] then input_dim else 2 * spec_output_dim (last specs))
        + num_classes)"
proof (intro conjI allI impI)
  fix preds s'
  assume a: "GSSupervised_forward (net st) ids features adj s = (Inr preds, s') \<and>
      shape0 preds * shape1 preds = shape0 labels * shape1 labels"
  define loss where "loss = - sum_list (map (\<lambda>i. data labels ! i * ln (1 / (1 + exp (- (data preds ! i))))
                                       + (1 - data labels ! i)
                                         * ln (1 - 1 / (1 + exp (- (data preds ! i)))))
                            [0..<shape0 preds * shape1 preds])
                  / real (shape0 preds * shape1 preds)"
  define g where "g = differentiate (\<lambda>m'. batch_loss m' ids features adj labels s) (net st)"
  define t where "t = sqrt (sum_list (map (\<lambda>i. (g i)\<^sup>2) [0..<num_parameters (net st)]))"
  define clipped where
    "clipped = (\<lambda>i. if 5 / (t + 1 / 10 ^ 6) < 1 then g i * (5 / (t + 1 / 10 ^ 6)) else g i)"
  define stepped where "stepped = optimizer_step (optimizer_state st) (net st) clipped"
  have l: "multilabel_soft_margin_loss preds labels = Inr loss"
    unfolding loss_def using a by (intro multilabel_soft_margin_loss_explicit) simp
  have c: "clip_grad_norm (num_parameters (net st)) 5 g = clipped"
    unfolding clipped_def t_def by (rule clip_grad_norm_explicit)
  have "train_step differentiate optimizer_step st ids features adj labels s =
        ((Inr (preds, loss), s'),
             \<lparr>net = snd stepped, grad = clipped, optimizer_state = fst stepped\<rparr>)"
    using train_step_unfold [of differentiate optimizer_step st ids features adj labels s] a l c
    by (simp add: g_def [symmetric] stepped_def [symmetric] Let_def split_beta)
  moreover have "batch_loss (net st) ids features adj labels s = loss"
    using a l by (simp add: batch_loss_def)
  moreover have "sqrt (sum_list (map (\<lambda>i. (clipped i)\<^sup>2) [0..<num_parameters (net st)])) \<le> 5"
    using clip_grad_norm_bound [of 5 "num_parameters (net st)" g] c by (simp add: total_norm_def)
  ultimately show "let loss = - sum_list (map (\<lambda>i. data labels ! i * ln (1 / (1 + exp (- (data preds ! i))))
                                       + (1 - data labels ! i)
                                         * ln (1 - 1 / (1 + exp (- (data preds ! i)))))
                            [0..<shape0 preds * shape1 preds])
                  / real (shape0 preds * shape1 preds);
           g = differentiate (\<lambda>m'. batch_loss m' ids features adj labels s) (net st);
           t = sqrt (sum_list (map (\<lambda>i. (g i)\<^sup>2) [0..<num_parameters (net st)]));
           clipped = (\<lambda>i. if 5 / (t + 1 / 10 ^ 6) < 1 then g i * (5 / (t + 1 / 10 ^ 6)) else g i);
           stepped = optimizer_step (optimizer_state st) (net st) clipped
       in train_step differentiate optimizer_step st ids features adj labels s =
            ((Inr (preds, loss), s'),
             \<lparr>net = snd stepped, grad = clipped, optimizer_state = fst stepped\<rparr>) \<and>
          batch_loss (net st) ids features adj labels s = loss \<and>
          sqrt (sum_list (map (\<lambda>i. (clipped i)\<^sup>2) [0..<num_parameters (net st)])) \<le> 5"
    unfolding Let_def stepped_def clipped_def t_def g_def loss_def
    by blast
next
  fix preds s'
  assume a: "GSSupervised_forward (net st) ids features adj s = (Inr preds, s') \<and>
      shape0 preds * shape1 preds \<noteq> shape0 labels * shape1 labels"
  then have "multilabel_soft_margin_loss preds labels = Inl ValueError"
    by (simp add: multilabel_soft_margin_loss_def)
  then show "train_step differentiate optimizer_step st ids features adj labels s =
        ((Inl ValueError, s'), st\<lparr>grad := (\<lambda>i. 0)\<rparr>)"
    using train_step_unfold [of differentiate optimizer_step st ids features adj labels s] a
    by simp
next
  fix e s'
  assume "GSSupervised_forward (net st) ids features adj s = (Inl e, s')"
  then show "train_step differentiate optimizer_step st ids features adj labels s =
        ((Inl e, s'), st\<lparr>grad := (\<lambda>i. 0)\<rparr>)"
    using train_step_unfold [of differentiate optimizer_step st ids features adj labels s]
    by simp
next
  fix g0
  show "train_step differentiate optimizer_step (st\<lparr>grad := g0\<rparr>) ids features adj labels s =
         train_step differentiate optimizer_step st ids features adj labels s"
    by (rule train_step_drops_old_gradients)
next
  fix input_dim num_classes :: nat and specs :: "('adj, 's) layer_spec list" and lr wd iv
  assume "GSSupervised_init input_dim num_classes specs lr wd iv = Inr (net st)"
  then show "num_parameters (net st) =
        sum_list (map (\<lambda>k. 2 * (spec_output_dim (specs ! k)
                                  * (if k = 0 then input_dim else 2 * spec_output_dim (specs ! (k - 1)))))
                   [0..<length specs])
        + num_classes * (if specs = [] then input_dim else 2 * spec_output_dim (last specs))
        + num_classes"
    by (rule num_parameters_init)
qed


theorem train_step_sequence_witness:
  "fst (train_step (\<lambda>f m i. if i = 0 then 3 else if i = 1 then 4 else 0) (\<lambda>n m g. (Suc n, m))
          \<lparr>net = \<lparr>sampler_fns = [], agg_layers = [],
                   fc = Linear_init 2 2 (\<lambda>k c. if k = 0 then 1 else 2) (Some (\<lambda>k. 0)),
                   learning_rate = 0, weight_decay = 0\<rparr>,
            grad = (\<lambda>i. 7), optimizer_state = 0\<rparr>
          [0] triangle_features triangle_adj \<lparr>shape0 = 1, shape1 = 2, data = [1, 0]\<rparr> ()) =
     (Inr (\<lparr>shape0 = 1, shape1 = 2, data = [1, 2]\<rparr>,
           - (ln (1 / (1 + exp (- 1))) + ln (1 - 1 / (1 + exp (- 2)))) / 2), ()) \<and>
   grad (snd (train_step (\<lambda>f m i. if i = 0 then 3 else if i = 1 then 4 else 0) (\<lambda>n m g. (Suc n, m))
          \<lparr>net = \<lparr>sampler_fns = [], agg_layers = [],
                   fc = Linear_init 2 2 (\<lambda>k c. if k = 0 then 1 else 2) (Some (\<lambda>k. 0)),
                   learning_rate = 0, weight_decay = 0\<rparr>,
            grad = (\<lambda>i. 7), optimizer_state = 0\<rparr>
          [0] triangle_features triangle_adj \<lparr>shape0 = 1, shape1 = 2, data = [1, 0]\<rparr> ())) =
     (\<lambda>i. (if i = 0 then 3 else if i = 1 then 4 else 0) * (5000000 / 5000001)) \<and>
   optimizer_state (snd (train_step (\<lambda>f m i. if i = 0 then 3 else if i = 1 then 4 else 0) (\<lambda>n m g. (Suc n, m))
          \<lparr>net = \<lparr>sampler_fns = [], agg_layers = [],
                   fc = Linear_init 2 2 (\<lambda>k c. if k = 0 then 1 else 2) (Some (\<lambda>k. 0)),
                   learning_rate = 0, weight_decay = 0\<rparr>,
            grad = (\<lambda>i. 7), optimizer_state = 0\<rparr>
          [0] triangle_features triangle_adj \<lparr>shape0 = 1, shape1 = 2, data = [1, 0]\<rparr> ())) = 1"
proof -
  define m0 :: "(nat \<Rightarrow> nat list, unit) GSSupervised" where
    "m0 = \<lparr>sampler_fns = [], agg_layers = [],
           fc = Linear_init 2 2 (\<lambda>k c. if k = 0 then 1 else 2) (Some (\<lambda>k. 0)),
           learning_rate = 0, weight_decay = 0\<rparr>"
  define st0 :: "(nat \<Rightarrow> nat list, unit, nat) training" where
    "st0 = \<lparr>net = m0, grad = (\<lambda>i. 7), optimizer_state = 0\<rparr>"
  define D :: "((nat \<Rightarrow> nat list, unit) GSSupervised \<Rightarrow> real) \<Rightarrow>
               (nat \<Rightarrow> nat list, unit) GSSupervised \<Rightarrow> nat \<Rightarrow> real" where
    "D = (\<lambda>f m i. if i = 0 then 3 else if i = 1 then 4 else 0)"
  define S :: "nat \<Rightarrow> (nat \<Rightarrow> nat list, unit) GSSupervised \<Rightarrow> (nat \<Rightarrow> real) \<Rightarrow>
               nat \<times> (nat \<Rightarrow> nat list, unit) GSSupervised" where
    "S = (\<lambda>n m g. (Suc n, m))"
  have fwd: "GSSupervised_forward (net st0) [0] triangle_features triangle_adj () =
             (Inr \<lparr>shape0 = 1, shape1 = 2, data = [1, 2]\<rparr>, ())"
    by (simp add: st0_def m0_def GSSupervised_forward_def GSSupervised_sample_def children_def
        index_rows_def triangle_features_def row_def Linear_forward_def Linear_init_def
        normalize_def row_norm_def tabulate2_def at2_def dot_def upt_rec)
  have np: "num_parameters (net st0) = 6"
    by (simp add: st0_def m0_def num_parameters_def Linear_numel_init)
  have sq: "sqrt 25 = 5" by (rule real_sqrt_unique) simp_all
  have full: "let loss = - sum_list (map (\<lambda>i. data \<lparr>shape0 = 1, shape1 = 2, data = [1, 0]\<rparr> ! i
                                           * ln (1 / (1 + exp (- (data \<lparr>shape0 = 1, shape1 = 2, data = [1, 2]\<rparr> ! i))))
                                       + (1 - data \<lparr>shape0 = 1, shape1 = 2, data = [1, 0]\<rparr> ! i)
                                         * ln (1 - 1 / (1 + exp (- (data \<lparr>shape0 = 1, shape1 = 2, data = [1, 2]\<rparr> ! i)))))
                            [0..<shape0 \<lparr>shape0 = 1, shape1 = 2, data = [1, 2]\<rparr>
                                 * shape1 \<lparr>shape0 = 1, shape1 = 2, data = [1, 2]\<rparr>])
                  / real (shape0 \<lparr>shape0 = 1, shape1 = 2, data = [1, 2]\<rparr>
                          * shape1 \<lparr>shape0 = 1, shape1 = 2, data = [1, 2]\<rparr>);
           g = D (\<lambda>m'. batch_loss m' [0] triangle_features triangle_adj
                          \<lparr>shape0 = 1, shape1 = 2, data = [1, 0]\<rparr> ()) (net st0);
           t = sqrt (sum_list (map (\<lambda>i. (g i)\<^sup>2) [0..<num_parameters (net st0)]));
           clipped = (\<lambda>i. if 5 / (t + 1 / 10 ^ 6) < 1 then g i * (5 / (t + 1 / 10 ^ 6)) else g i);
           stepped = S (optimizer_state st0) (net st0) clipped
       in train_step D S st0 [0] triangle_features triangle_adj
            \<lparr>shape0 = 1, shape1 = 2, data = [1, 0]\<rparr> () =
            ((Inr (\<lparr>shape0 = 1, shape1 = 2, data = [1, 2]\<rparr>, loss), ()),
             \<lparr>net = snd stepped, grad = clipped, optimizer_state = fst stepped\<rparr>) \<and>
          batch_loss (net st0) [0] triangle_features triangle_adj
            \<lparr>shape0 = 1, shape1 = 2, data = [1, 0]\<rparr> () = loss \<and>
          sqrt (sum_list (map (\<lambda>i. (clipped i)\<^sup>2) [0..<num_parameters (net st0)])) \<le> 5"
  proof -
    have "GSSupervised_forward (net st0) [0] triangle_features triangle_adj () =
             (Inr \<lparr>shape0 = 1, shape1 = 2, data = [1, 2]\<rparr>, ()) \<and>
          shape0 \<lparr>shape0 = 1, shape1 = 2, data = [1, 2]\<rparr> * shape1 \<lparr>shape0 = 1, shape1 = 2, data = [1, 2]\<rparr> =
          shape0 \<lparr>shape0 = 1, shape1 = 2, data = [1, 0]\<rparr> * shape1 \<lparr>shape0 = 1, shape1 = 2, data = [1, 0]\<rparr>"
      using fwd by simp
    then show ?thesis
      by (rule train_step_sequence
          [of st0 "[0]" triangle_features triangle_adj "()" "\<lparr>shape0 = 1, shape1 = 2, data = [1, 0]\<rparr>" D S,
           THEN conjunct1, rule_format])
  qed
  have run: "train_step D S st0 [0] triangle_features triangle_adj
            \<lparr>shape0 = 1, shape1 = 2, data = [1, 0]\<rparr> () =
        ((Inr (\<lparr>shape0 = 1, shape1 = 2, data = [1, 2]\<rparr>,
               - (ln (1 / (1 + exp (- 1))) + ln (1 - 1 / (1 + exp (- 2)))) / 2), ()),
         \<lparr>net = m0,
          grad = (\<lambda>i. (if i = 0 then 3 else if i = 1 then 4 else 0) * (5000000 / 5000001)),
          optimizer_state = 1\<rparr>)"
  proof -
    have t: "sqrt (sum_list (map (\<lambda>i. (if i = 0 then 3 else if i = 1 then 4 else (0::real))\<^sup>2) [0..<6])) = 5"
      by (simp add: upt_rec sq)
    have g: "D f (net st0) = (\<lambda>i. if i = 0 then 3 else if i = 1 then 4 else 0)" for f
      by (simp add: D_def)
    have c: "(5::real) / (5 + 1 / 10 ^ 6) = 5000000 / 5000001" "(5000000::real) / 5000001 < 1"
      by simp_all
    have l: "- sum_list (map (\<lambda>i. data \<lparr>shape0 = 1, shape1 = 2, data = [1, 0]\<rparr> ! i
                                           * ln (1 / (1 + exp (- (data \<lparr>shape0 = 1, shape1 = 2, data = [1, 2]\<rparr> ! i))))
                                       + (1 - data \<lparr>shape0 = 1, shape1 = 2, data = [1, 0]\<rparr> ! i)
                                         * ln (1 - 1 / (1 + exp (- (data \<lparr>shape0 = 1, shape1 = 2, data = [1, 2]\<rparr> ! i)))))
                            [0..<shape0 \<lparr>shape0 = 1, shape1 = 2, data = [1, 2]\<rparr>
                                 * shape1 \<lparr>shape0 = 1, shape1 = 2, data = [1, 2]\<rparr>])
                  / real (shape0 \<lparr>shape0 = 1, shape1 = 2, data = [1, 2]\<rparr>
                          * shape1 \<lparr>shape0 = 1, shape1 = 2, data = [1, 2]\<rparr>) =
             - (ln (1 / (1 + exp (- 1))) + ln (1 - 1 / (1 + exp (- 2)))) / 2"
      by (simp add: upt_rec)
    have sfst: "fst (S (optimizer_state st0) (net st0) h) = 1" "snd (S (optimizer_state st0) (net st0) h) = m0" for h
      by (simp_all add: S_def st0_def)
    show ?thesis
      using full unfolding Let_def l g np t c sfst
      by simp
  qed
  show ?thesis using run unfolding st0_def m0_def D_def S_def by simp
qed

end
